theory Spec2Isabelle
  imports Main
begin

section \<open>Bytes, C strings and the bounded string functions\<close>

text \<open>
  The fields of the bootloader control block and the buffers of \<open>recovery.c\<close> are byte
  arrays; a byte is a \<^typ>\<open>char\<close> and an array is the list of its bytes. A C string
  is what such an array holds in front of its first NUL byte.
\<close>

definition NUL :: char where
  "NUL = CHR 0x00"

definition xFF :: char where
  "xFF = CHR 0xFF"

definition nl :: char where
  "nl = CHR 0x0A"

definition cr :: char where
  "cr = CHR 0x0D"

definition cstr :: "string \<Rightarrow> string" where
  "cstr s = takeWhile (\<lambda>c. c \<noteq> NUL) s"

text \<open>
  An argument that survives being written on a line of its own and read back: not
  empty, with no NUL and no newline in it.
\<close>

definition plain :: "string \<Rightarrow> bool" where
  "plain a = (a \<noteq> [] \<and> NUL \<notin> set a \<and> nl \<notin> set a)"

text \<open>
  \<open>strlcpy(dst, src, size)\<close>: at most \<open>size - 1\<close> bytes of the C string \<open>src\<close>, then
  the terminator; the bytes of \<open>dst\<close> behind the terminator stay.
\<close>

definition strlcpy :: "string \<Rightarrow> string \<Rightarrow> nat \<Rightarrow> string" where
  "strlcpy dst src sz =
     (if sz = 0 then dst
      else (let s = take (sz - 1) (cstr src)
            in s @ NUL # drop (Suc (length s)) dst))"

text \<open>
  \<open>strlcat(dst, src, size)\<close>: appends to the C string found in the first \<open>size\<close>
  bytes of \<open>dst\<close> as much of \<open>src\<close> as leaves room for the terminator; when
  these bytes hold no terminator nothing is written.
\<close>

definition strlcat :: "string \<Rightarrow> string \<Rightarrow> nat \<Rightarrow> string" where
  "strlcat dst src sz =
     (let dlen = length (cstr (take sz dst))
      in if sz \<le> dlen then dst
         else (let s = take (sz - dlen - 1) (cstr src)
               in take dlen dst @ s @ NUL # drop (dlen + length s + 1) dst))"

text \<open>
  One call of \<open>strtok\<close> on the bytes \<open>s\<close> that are still to be scanned. Leading
  delimiters are skipped; the token runs to the next delimiter or NUL; a delimiter that
  ends the token is overwritten with NUL. The result is the token, the scanned bytes as
  \<open>strtok\<close> leaves them in the buffer, and the bytes still to scan for the next call
  (\<open>strtok(NULL, ...)\<close>). \<open>None\<close> is the NULL result, which leaves the buffer as
  it is.
\<close>

definition strtok :: "string \<Rightarrow> string \<Rightarrow> (string \<times> string \<times> string) option" where
  "strtok s delim =
     (let skipped = takeWhile (\<lambda>c. c \<in> set delim) s;
          s1 = dropWhile (\<lambda>c. c \<in> set delim) s;
          tok = takeWhile (\<lambda>c. c \<noteq> NUL \<and> c \<notin> set delim) s1;
          s2 = dropWhile (\<lambda>c. c \<noteq> NUL \<and> c \<notin> set delim) s1
      in if tok = [] then None
         else (case s2 of
                 [] \<Rightarrow> Some (tok, skipped @ tok, [])
               | d # r \<Rightarrow>
                   if d = NUL then Some (tok, skipped @ tok, s2)
                   else Some (tok, skipped @ tok @ [NUL], r)))"

text \<open>
  \<open>fgets(buf, size, fp)\<close> on the unread rest \<open>s\<close> of a file: at most \<open>size - 1\<close>
  bytes, stopping behind the first newline; NULL (\<open>None\<close>) at end of file.
\<close>

fun fgets_chunk :: "nat \<Rightarrow> string \<Rightarrow> string" where
  "fgets_chunk 0 s = []"
| "fgets_chunk (Suc k) [] = []"
| "fgets_chunk (Suc k) (c # s) = (if c = nl then [c] else c # fgets_chunk k s)"

definition fgets :: "nat \<Rightarrow> string \<Rightarrow> (string \<times> string) option" where
  "fgets sz s =
     (if s = [] then None
      else (let buf = fgets_chunk (sz - 1) s in Some (buf, drop (length buf) s)))"

section \<open>The bootloader control block and the files of a session\<close>

record bootloader_message =
  command :: string
  status :: string
  recovery :: string

text \<open>
  The capacities of the three fields (\<open>sizeof(boot.command)\<close> and so on) are declared
  in \<open>bootloader.h\<close>, which is not part of the sources at hand; they are parameters.
\<close>

record layout =
  command_size :: nat
  status_size :: nat
  recovery_size :: nat

definition zeroed :: "layout \<Rightarrow> bootloader_message" where
  "zeroed L = \<lparr> command = replicate (command_size L) NUL,
               status = replicate (status_size L) NUL,
               recovery = replicate (recovery_size L) NUL \<rparr>"

text \<open>
  What a session reads and writes. Modelled from the spec: \<open>get_bootloader_message\<close> and
  \<open>set_bootloader_message\<close> (bootloader.c), \<open>ensure_root_path_mounted\<close> and
  \<open>translate_root_path\<close> (roots.c) and the logging macros (common.h) are not among the
  sources. Reading the record gives the stored bytes or fails, leaving the caller's
  zeroed structure; writing stores the exact bytes; mounting and translating the cache
  volume succeeds or fails as a whole; log output of every level goes to the session's
  temporary log, to which \<open>main\<close> redirects the standard streams.
  \<^item> \<open>intent_opens\<close>, \<open>log_opens\<close>: \<open>fopen\<close> of the intent file for writing, and
    of the log file for appending, succeeds on the mounted volume;
  \<^item> \<open>unlink_denied\<close>: \<open>unlink\<close> of an existing command file fails with an error
    other than ENOENT;
  \<^item> \<open>intent_fault\<close>, \<open>log_fault\<close>: \<open>Some (n, e)\<close> when the stream written to the
    intent file, or to the log file, takes \<open>n\<close> bytes and fails from there on, \<open>e\<close>
    being \<open>strerror(errno)\<close>;
  \<^item> \<open>tmplog_fault\<close>: \<open>Some (k, e)\<close> when reading the temporary log fails behind \<open>k\<close>
    calls of \<open>fgets\<close>;
  \<^item> \<open>tmplog_offset\<close>: the function-static \<open>tmplog_offset\<close> of \<open>finish_recovery\<close>.
\<close>

record world =
  bcb :: bootloader_message
  bcb_readable :: bool
  cache_mounts :: bool
  intent_opens :: bool
  log_opens :: bool
  unlink_denied :: bool
  intent_fault :: "(nat \<times> string) option"
  log_fault :: "(nat \<times> string) option"
  tmplog_fault :: "(nat \<times> string) option"
  command_file :: "string option"
  intent_file :: "string option"
  log_file :: "string option"
  tmplog :: string
  tmplog_readable :: bool
  tmplog_offset :: nat

definition LOGI :: "string \<Rightarrow> world \<Rightarrow> world" where
  "LOGI msg w = w\<lparr>tmplog := tmplog w @ ''I:'' @ msg\<rparr>"

definition LOGW :: "string \<Rightarrow> world \<Rightarrow> world" where
  "LOGW msg w = w\<lparr>tmplog := tmplog w @ ''W:'' @ msg\<rparr>"

definition LOGE :: "string \<Rightarrow> world \<Rightarrow> world" where
  "LOGE msg w = w\<lparr>tmplog := tmplog w @ ''E:'' @ msg\<rparr>"

definition COMMAND_FILE :: string where
  "COMMAND_FILE = ''CACHE:recovery/command''"

definition INTENT_FILE :: string where
  "INTENT_FILE = ''CACHE:recovery/intent''"

definition LOG_FILE :: string where
  "LOG_FILE = ''CACHE:recovery/log''"

definition TEMPORARY_LOG_FILE :: string where
  "TEMPORARY_LOG_FILE = ''/tmp/recovery.log''"

definition MAX_ARG_LENGTH :: nat where
  "MAX_ARG_LENGTH = 4096"

definition MAX_ARGS :: nat where
  "MAX_ARGS = 100"

text \<open>
  \<open>fopen_root_path(root_path, "r")\<close> for a file of the cache volume: the log line of
  a failed mount, and the contents when the file could be opened.
\<close>

definition fopen_root_path_r :: "string \<Rightarrow> string option \<Rightarrow> world \<Rightarrow> string option \<times> world" where
  "fopen_root_path_r root_path file w =
     (if \<not> cache_mounts w then (None, LOGE (''Can't mount '' @ root_path @ [nl]) w)
      else (file, w))"

text \<open>
  \<open>fopen_root_path(root_path, "w")\<close> and \<open>"a"\<close>: whether the stream could be opened,
  \<open>opens\<close> being the answer of \<open>fopen\<close> for this path on the mounted volume.
\<close>

definition fopen_root_path_w :: "string \<Rightarrow> bool \<Rightarrow> world \<Rightarrow> bool \<times> world" where
  "fopen_root_path_w root_path opens w =
     (if \<not> cache_mounts w then (False, LOGE (''Can't mount '' @ root_path @ [nl]) w)
      else (opens, w))"

text \<open>
  \<open>check_and_fclose(fp, name)\<close>: the log line when the error indicator of the stream is
  set, \<open>err\<close> being \<open>strerror(errno)\<close> then.
\<close>

definition check_and_fclose :: "string option \<Rightarrow> string \<Rightarrow> world \<Rightarrow> world" where
  "check_and_fclose err name w =
     (case err of
        None \<Rightarrow> w
      | Some e \<Rightarrow> LOGE (''Error in '' @ name @ [nl] @ ''('' @ e @ '')'' @ [nl]) w)"

text \<open>
  A stream that is written to: the bytes that reach the file, and the error indicator
  behind the writes.
\<close>

definition accepted :: "(nat \<times> string) option \<Rightarrow> string \<Rightarrow> string" where
  "accepted fault bytes = (case fault of None \<Rightarrow> bytes | Some (n, e) \<Rightarrow> take n bytes)"

definition write_error :: "(nat \<times> string) option \<Rightarrow> string \<Rightarrow> string option" where
  "write_error fault bytes =
     (case fault of
        None \<Rightarrow> None
      | Some (n, e) \<Rightarrow> if n < length bytes then Some e else None)"

section \<open>get_args\<close>

text \<open>
  The ways in which the C code leaves defined behaviour. \<open>Null_strdup\<close>:
  \<open>strdup(strtok(buf, "\r\n"))\<close> when \<open>strtok\<close> finds no token and returns NULL.
  \<open>No_argv0\<close> marks \<open>argc = 0\<close>, where \<open>argv[0]\<close> is the NULL pointer: a list of
  strings cannot hold it, so the model stops where the code reads \<open>argv[0]\<close> instead of
  inventing a program name.
\<close>

datatype fault = Null_strdup | No_argv0

text \<open>
  The loop over \<open>strtok(NULL, "\n")\<close> of the control block branch, with the number of
  rounds left: the tokens, and the scanned buffer as \<open>strtok\<close> leaves it.
\<close>

fun strtok_args :: "nat \<Rightarrow> string \<Rightarrow> string list \<times> string" where
  "strtok_args 0 s = ([], s)"
| "strtok_args (Suc n) s =
     (case strtok s [nl] of
        None \<Rightarrow> ([], s)
      | Some (tok, scanned, rest) \<Rightarrow>
          (case strtok_args n rest of (toks, s') \<Rightarrow> (tok # toks, scanned @ s')))"

text \<open>
  The loop over \<open>fgets\<close> of the command file branch, with the number of rounds left.
\<close>

fun read_args :: "nat \<Rightarrow> string \<Rightarrow> fault + string list" where
  "read_args 0 s = Inr []"
| "read_args (Suc n) s =
     (case fgets MAX_ARG_LENGTH s of
        None \<Rightarrow> Inr []
      | Some (buf, rest) \<Rightarrow>
          (case strtok (buf @ [NUL]) [cr, nl] of
             None \<Rightarrow> Inl Null_strdup
           | Some (tok, scanned, unscanned) \<Rightarrow>
               (case read_args n rest of
                  Inl e \<Rightarrow> Inl e
                | Inr toks \<Rightarrow> Inr (tok # toks))))"


definition present :: "string \<Rightarrow> bool" where
  "present field = (case field of [] \<Rightarrow> False | c # cs \<Rightarrow> c \<noteq> NUL \<and> c \<noteq> xFF)"

text \<open>
  The reading of the spec for an absent field: a field that starts with a 0x00 or a 0xFF
  byte counts as empty, that is, as if it held nothing but zero bytes.
\<close>

definition blank_absent :: "bootloader_message \<Rightarrow> bootloader_message" where
  "blank_absent b =
     \<lparr> command = (if present (command b) then command b else replicate (length (command b)) NUL),
       status = (if present (status b) then status b else replicate (length (status b)) NUL),
       recovery = (if present (recovery b) then recovery b else replicate (length (recovery b)) NUL) \<rparr>"

text \<open>The two log lines about the \<open>command\<close> and \<open>status\<close> fields.\<close>

definition log_boot_fields :: "layout \<Rightarrow> bootloader_message \<Rightarrow> world \<Rightarrow> world" where
  "log_boot_fields L boot w =
     (let w1 = (if present (command boot)
                then LOGI (''Boot command: '' @ cstr (take (command_size L) (command boot)) @ [nl]) w
                else w)
      in if present (status boot)
         then LOGI (''Boot status: '' @ cstr (take (status_size L) (status boot)) @ [nl]) w1
         else w1)"

text \<open>
  The control block branch: the argument vector, the \<open>recovery\<close> buffer as it is left,
  and the log.
\<close>

definition args_from_bcb :: "layout \<Rightarrow> string \<Rightarrow> string list \<Rightarrow> world \<Rightarrow> string list \<times> string \<times> world" where
  "args_from_bcb L rec argv w =
     (let rec0 = rec[recovery_size L - 1 := NUL]
      in case strtok rec0 [nl] of
           None \<Rightarrow>
             (argv, rec0,
              if present rec0 then LOGE (''Bad boot message'' @ [nl] @ ''\"'' @ take 20 (cstr rec0) @ ''\"'' @ [nl]) w
              else w)
         | Some (arg, scanned, rest) \<Rightarrow>
             if arg = ''recovery'' then
               (case strtok_args (MAX_ARGS - 1) rest of
                  (toks, rest') \<Rightarrow>
                    (arg # toks, scanned @ rest', LOGI (''Got arguments from boot message'' @ [nl]) w))
             else
               (let rec1 = scanned @ rest
                in (argv, rec1,
                    if present rec1 then LOGE (''Bad boot message'' @ [nl] @ ''\"'' @ take 20 (cstr rec1) @ ''\"'' @ [nl]) w
                    else w)))"

text \<open>
  The command file branch. Reading an opened command file is taken to succeed, so that
  \<open>check_and_fclose\<close> has no error to log here.
\<close>

definition args_from_file :: "string list \<Rightarrow> world \<Rightarrow> fault + (string list \<times> world)" where
  "args_from_file argv w =
     (case fopen_root_path_r COMMAND_FILE (command_file w) w of
        (None, w1) \<Rightarrow> Inr (argv, w1)
      | (Some contents, w1) \<Rightarrow>
          (case argv of
             [] \<Rightarrow> Inl No_argv0
           | argv0 # old \<Rightarrow>
               (case read_args (MAX_ARGS - 1) contents of
                  Inl e \<Rightarrow> Inl e
                | Inr toks \<Rightarrow>
                    Inr (argv0 # toks, LOGI (''Got arguments from '' @ COMMAND_FILE @ [nl]) w1))))"

text \<open>The write-back of the arguments from index 1 on.\<close>

definition write_args :: "layout \<Rightarrow> string \<Rightarrow> string list \<Rightarrow> string" where
  "write_args L rec argv =
     foldl (\<lambda>r a. strlcat (strlcat r a (recovery_size L)) [nl] (recovery_size L))
       (strlcpy rec (''recovery'' @ [nl]) (recovery_size L)) (tl argv)"

definition get_args :: "layout \<Rightarrow> world \<Rightarrow> string list \<Rightarrow> fault + (string list \<times> world)" where
  "get_args L w argv =
     (let boot = (if bcb_readable w then bcb w else zeroed L);
          w1 = log_boot_fields L boot w;
          (argv1, rec1, w2) =
             (if length argv \<le> 1 then args_from_bcb L (recovery boot) argv w1
              else (argv, recovery boot, w1))
      in case (if length argv1 \<le> 1 then args_from_file argv1 w2 else Inr (argv1, w2)) of
           Inl e \<Rightarrow> Inl e
         | Inr (argv2, w3) \<Rightarrow>
             Inr (argv2,
                  w3\<lparr>bcb := boot\<lparr>command := strlcpy (command boot) ''boot-recovery'' (command_size L),
                                  recovery := write_args L rec1 argv2\<rparr>\<rparr>))"

section \<open>finish_recovery\<close>

text \<open>Writing the intent: \<open>fputs\<close> writes the C string, \<open>"w"\<close> truncates.\<close>

definition write_intent :: "string option \<Rightarrow> world \<Rightarrow> world" where
  "write_intent send_intent w =
     (case send_intent of
        None \<Rightarrow> w
      | Some s \<Rightarrow>
          (case fopen_root_path_w INTENT_FILE (intent_opens w) w of
             (False, w1) \<Rightarrow> LOGE (''Can't open '' @ INTENT_FILE @ [nl]) w1
           | (True, w1) \<Rightarrow>
               check_and_fclose (write_error (intent_fault w1) (cstr s)) INTENT_FILE
                 (w1\<lparr>intent_file := Some (accepted (intent_fault w1) (cstr s))\<rparr>)))"

text \<open>
  \<open>while (fgets(buf, sizeof(buf), tmplog)) fputs(buf, log)\<close> with \<open>char buf[4096]\<close>,
  on the unread rest of the temporary log: the bytes put to the log stream when
  \<open>fgets\<close> goes on to the end of the file.
\<close>

function copy_lines :: "string \<Rightarrow> string" where
  "copy_lines s =
     (case fgets 4096 s of
        None \<Rightarrow> []
      | Some (buf, rest) \<Rightarrow> cstr buf @ copy_lines rest)"
  by pat_completeness auto

text \<open>
  The same loop when \<open>fgets\<close> returns NULL at the latest behind \<open>k\<close> rounds: the bytes
  put to the log stream, and the bytes left unread.
\<close>

fun copy_rounds :: "nat \<Rightarrow> string \<Rightarrow> string \<times> string" where
  "copy_rounds 0 s = ([], s)"
| "copy_rounds (Suc k) s =
     (case fgets 4096 s of
        None \<Rightarrow> ([], s)
      | Some (buf, rest) \<Rightarrow>
          (case copy_rounds k rest of (put, unread) \<Rightarrow> (cstr buf @ put, unread)))"

definition copy_out :: "(nat \<times> string) option \<Rightarrow> string \<Rightarrow> string \<times> string" where
  "copy_out fault s =
     (case fault of None \<Rightarrow> (copy_lines s, []) | Some (k, e) \<Rightarrow> copy_rounds k s)"

text \<open>The error indicator of the stream read: set when the fault left bytes unread.\<close>

definition read_error :: "(nat \<times> string) option \<Rightarrow> string \<Rightarrow> string option" where
  "read_error fault unread =
     (case fault of
        None \<Rightarrow> None
      | Some (k, e) \<Rightarrow> if unread \<noteq> [] then Some e else None)"

text \<open>
  Copying the temporary log from \<open>tmplog_offset\<close> on. Opening the log file for
  appending creates it; \<open>ftell\<close> behind the loop is the place where reading stopped, or
  the offset itself when that lies behind the end of the temporary log. The two streams
  are closed behind the copy, the temporary log first.
\<close>

definition copy_log :: "world \<Rightarrow> world" where
  "copy_log w =
     (case fopen_root_path_w LOG_FILE (log_opens w) w of
        (False, w1) \<Rightarrow> LOGE (''Can't open '' @ LOG_FILE @ [nl]) w1
      | (True, w1) \<Rightarrow>
          (let old = (case log_file w1 of None \<Rightarrow> [] | Some t \<Rightarrow> t)
           in if \<not> tmplog_readable w1
              then check_and_fclose None LOG_FILE
                     ((LOGE (''Can't open '' @ TEMPORARY_LOG_FILE @ [nl]) w1)\<lparr>log_file := Some old\<rparr>)
              else (case copy_out (tmplog_fault w1) (drop (tmplog_offset w1) (tmplog w1)) of
                      (put, unread) \<Rightarrow>
                        check_and_fclose (write_error (log_fault w1) put) LOG_FILE
                          (check_and_fclose (read_error (tmplog_fault w1) unread) TEMPORARY_LOG_FILE
                             (w1\<lparr>log_file := Some (old @ accepted (log_fault w1) put),
                                  tmplog_offset :=
                                    (if tmplog_offset w1 \<le> length (tmplog w1)
                                     then length (tmplog w1) - length unread
                                     else tmplog_offset w1)\<rparr>)))))"

text \<open>Removing the command file; ENOENT raises no warning.\<close>

definition remove_command_file :: "world \<Rightarrow> world" where
  "remove_command_file w =
     (if \<not> cache_mounts w then LOGW (''Can't unlink '' @ COMMAND_FILE @ [nl]) w
      else (case command_file w of
              None \<Rightarrow> w
            | Some contents \<Rightarrow>
                if unlink_denied w then LOGW (''Can't unlink '' @ COMMAND_FILE @ [nl]) w
                else w\<lparr>command_file := None\<rparr>))"

definition finish_recovery :: "layout \<Rightarrow> string option \<Rightarrow> world \<Rightarrow> world" where
  "finish_recovery L send_intent w =
     remove_command_file ((copy_log (write_intent send_intent w))\<lparr>bcb := zeroed L\<rparr>)"

text \<open>
  The lines that the steps of \<open>finish_recovery\<close> add to the temporary log, read off
  the definitions above.
\<close>

definition error_line :: "string option \<Rightarrow> string \<Rightarrow> string" where
  "error_line err name =
     (case err of
        None \<Rightarrow> []
      | Some e \<Rightarrow> ''E:Error in '' @ name @ [nl] @ ''('' @ e @ '')'' @ [nl])"

definition intent_log :: "string option \<Rightarrow> world \<Rightarrow> string" where
  "intent_log send_intent w =
     (case send_intent of
        None \<Rightarrow> []
      | Some s \<Rightarrow>
          if \<not> cache_mounts w
          then ''E:Can't mount '' @ INTENT_FILE @ [nl] @ ''E:Can't open '' @ INTENT_FILE @ [nl]
          else if \<not> intent_opens w then ''E:Can't open '' @ INTENT_FILE @ [nl]
          else error_line (write_error (intent_fault w) (cstr s)) INTENT_FILE)"




section \<open>The command of a session in main\<close>

text \<open>
  Modelled from the spec: \<open>install.h\<close> is not among the sources; the outcome of a session
  is one of success and error.
\<close>

datatype install_status = INSTALL_SUCCESS | INSTALL_ERROR

datatype icon = BACKGROUND_ICON_INSTALLING | BACKGROUND_ICON_ERROR

text \<open>The calls \<open>main\<close> makes to its collaborators, in the order it makes them.\<close>

datatype event =
    Ui_set_background icon
  | Ui_show_indeterminate_progress
  | Ui_print string
  | Log_error string
  | Format_root_device string
  | Install_package string
  | Prompt_and_wait
  | Finish_recovery "string option"
  | Sync
  | Reboot

record options =
  send_intent :: "string option"
  update_package :: "string option"
  wipe_data :: bool
  wipe_cache :: bool

definition no_options :: options where
  "no_options = \<lparr> send_intent = None, update_package = None,
                   wipe_data = False, wipe_cache = False \<rparr>"

text \<open>
  One round of the \<open>getopt_long\<close> loop: the value \<open>getopt_long\<close> returned and
  \<open>optarg\<close>. \<open>getopt_long\<close> is the C library's and is taken as the list of what it
  returns. The case \<open>'p'\<close> sets \<open>previous_runs\<close>, which nothing reads; it is left out.
\<close>

definition option_case :: "options \<times> event list \<Rightarrow> char \<times> string \<Rightarrow> options \<times> event list" where
  "option_case acc opt =
     (case acc of (opts, evs) \<Rightarrow>
      (case opt of (arg, optarg) \<Rightarrow>
        if arg = CHR ''s'' then (opts\<lparr>send_intent := Some optarg\<rparr>, evs)
        else if arg = CHR ''u'' then (opts\<lparr>update_package := Some optarg\<rparr>, evs)
        else if arg = CHR ''w'' then (opts\<lparr>wipe_data := True, wipe_cache := True\<rparr>, evs)
        else if arg = CHR ''c'' then (opts\<lparr>wipe_cache := True\<rparr>, evs)
        else if arg = CHR ''?'' then (opts, evs @ [Log_error (''Invalid command argument'' @ [nl])])
        else (opts, evs)))"

definition parse_options :: "(char \<times> string) list \<Rightarrow> options \<times> event list" where
  "parse_options returned = foldl option_case (no_options, []) returned"

text \<open>
  \<open>erase_root\<close>: what \<open>format_root_device\<close> returns (0 for success), and the calls made.
\<close>

definition erase_root :: "(string \<Rightarrow> int) \<Rightarrow> string \<Rightarrow> int \<times> event list" where
  "erase_root format_root_device root =
     (format_root_device root,
      [Ui_set_background BACKGROUND_ICON_INSTALLING, Ui_show_indeterminate_progress,
       Ui_print (''Formatting '' @ root @ ''..''), Format_root_device root])"

text \<open>
  The branch of \<open>main\<close> that carries the command out, from \<open>int status = INSTALL_SUCCESS\<close>
  on; \<open>install_package\<close> and \<open>format_root_device\<close> are the collaborators' answers.
\<close>

definition run_command ::
  "(string \<Rightarrow> install_status) \<Rightarrow> (string \<Rightarrow> int) \<Rightarrow> options \<Rightarrow> install_status \<times> event list" where
  "run_command install_package format_root_device opts =
     (case update_package opts of
        Some pkg \<Rightarrow>
          (let st = install_package pkg
           in (st, Install_package pkg #
                   (if st \<noteq> INSTALL_SUCCESS then [Ui_print (''Installation aborted.'' @ [nl])] else [])))
      | None \<Rightarrow>
          if wipe_data opts \<or> wipe_cache opts then
            (let (st1, evs1) =
                   (if wipe_data opts
                    then (case erase_root format_root_device ''DATA:'' of
                            (r, evs) \<Rightarrow> (if r \<noteq> 0 then INSTALL_ERROR else INSTALL_SUCCESS, evs))
                    else (INSTALL_SUCCESS, []));
                 (st2, evs2) =
                   (if wipe_cache opts
                    then (case erase_root format_root_device ''CACHE:'' of
                            (r, evs) \<Rightarrow> (if r \<noteq> 0 then INSTALL_ERROR else st1, evs))
                    else (st1, []))
             in (st2, evs1 @ evs2 @
                      (if st2 \<noteq> INSTALL_SUCCESS then [Ui_print (''Data wipe failed.'' @ [nl])] else [])))
          else (INSTALL_ERROR, []))"

definition do_reboot :: bool where
  "do_reboot = True"

text \<open>What \<open>main\<close> does with the status, up to its return.\<close>

definition after_command :: "install_status \<Rightarrow> string option \<Rightarrow> event list" where
  "after_command st intent =
     (if st \<noteq> INSTALL_SUCCESS then [Ui_set_background BACKGROUND_ICON_ERROR] else []) @
     (if st \<noteq> INSTALL_SUCCESS then [Prompt_and_wait] else []) @
     [Finish_recovery intent, Sync] @
     (if do_reboot then [Ui_print (''Rebooting...'' @ [nl]), Sync, Reboot] else [])"

text \<open>\<open>main\<close> behind \<open>get_args\<close>: the status and every call, in order.\<close>

definition main_session ::
  "(string \<Rightarrow> install_status) \<Rightarrow> (string \<Rightarrow> int) \<Rightarrow> (char \<times> string) list \<Rightarrow> install_status \<times> event list" where
  "main_session install_package format_root_device returned =
     (case parse_options returned of
        (opts, evs0) \<Rightarrow>
          (case run_command install_package format_root_device opts of
             (st, evs1) \<Rightarrow> (st, evs0 @ evs1 @ after_command st (send_intent opts))))"

section \<open>Example sessions\<close>

text \<open>
  A layout with the field capacities 32, 32 and 1024, and the world of a cold boot into
  recovery: an all-zero control block, a cache volume that mounts, no files on it, no
  faulty stream, an empty temporary log.
\<close>

definition example_layout :: layout where
  "example_layout = \<lparr> command_size = 32, status_size = 32, recovery_size = 1024 \<rparr>"

definition cold_boot :: world where
  "cold_boot = \<lparr> bcb = zeroed example_layout, bcb_readable = True, cache_mounts = True,
                  intent_opens = True, log_opens = True, unlink_denied = False,
                  intent_fault = None, log_fault = None, tmplog_fault = None,
                  command_file = None, intent_file = None, log_file = None, tmplog = [],
                  tmplog_readable = True, tmplog_offset = 0 \<rparr>"


section \<open>Facts about the string functions\<close>

termination copy_lines
proof (relation "measure length")
  show "wf (measure length)" by simp
next
  fix s :: string and x2 x y
  assume a: "fgets 4096 s = Some x2" "(x, y) = x2"
  then have "s \<noteq> []" by (auto simp: fgets_def split: if_splits)
  then obtain c cs where s: "s = c # cs" by (cases s) auto
  have "fgets_chunk 4095 (c # cs) \<noteq> []"
    by (simp add: numeral_eq_Suc)
  with a s have "length y < length s"
    by (auto simp: fgets_def Let_def split: if_splits)
  then show "(y, s) \<in> measure length" by simp
qed



section \<open>Frame facts\<close>

lemma LOG_frame [simp]:
  "bcb (LOGE m w) = bcb w" "bcb (LOGW m w) = bcb w" "bcb (LOGI m w) = bcb w"
  "bcb_readable (LOGE m w) = bcb_readable w" "bcb_readable (LOGW m w) = bcb_readable w" "bcb_readable (LOGI m w) = bcb_readable w"
  "cache_mounts (LOGE m w) = cache_mounts w" "cache_mounts (LOGW m w) = cache_mounts w" "cache_mounts (LOGI m w) = cache_mounts w"
  "intent_opens (LOGE m w) = intent_opens w" "intent_opens (LOGW m w) = intent_opens w" "intent_opens (LOGI m w) = intent_opens w"
  "log_opens (LOGE m w) = log_opens w" "log_opens (LOGW m w) = log_opens w" "log_opens (LOGI m w) = log_opens w"
  "unlink_denied (LOGE m w) = unlink_denied w" "unlink_denied (LOGW m w) = unlink_denied w" "unlink_denied (LOGI m w) = unlink_denied w"
  "intent_fault (LOGE m w) = intent_fault w" "intent_fault (LOGW m w) = intent_fault w" "intent_fault (LOGI m w) = intent_fault w"
  "log_fault (LOGE m w) = log_fault w" "log_fault (LOGW m w) = log_fault w" "log_fault (LOGI m w) = log_fault w"
  "tmplog_fault (LOGE m w) = tmplog_fault w" "tmplog_fault (LOGW m w) = tmplog_fault w" "tmplog_fault (LOGI m w) = tmplog_fault w"
  "command_file (LOGE m w) = command_file w" "command_file (LOGW m w) = command_file w" "command_file (LOGI m w) = command_file w"
  "intent_file (LOGE m w) = intent_file w" "intent_file (LOGW m w) = intent_file w" "intent_file (LOGI m w) = intent_file w"
  "log_file (LOGE m w) = log_file w" "log_file (LOGW m w) = log_file w" "log_file (LOGI m w) = log_file w"
  "tmplog_readable (LOGE m w) = tmplog_readable w" "tmplog_readable (LOGW m w) = tmplog_readable w" "tmplog_readable (LOGI m w) = tmplog_readable w"
  "tmplog_offset (LOGE m w) = tmplog_offset w" "tmplog_offset (LOGW m w) = tmplog_offset w" "tmplog_offset (LOGI m w) = tmplog_offset w"
  by (simp_all add: LOGE_def LOGW_def LOGI_def)

lemma LOG_tmplog [simp]:
  "tmplog (LOGE m w) = tmplog w @ ''E:'' @ m"
  "tmplog (LOGW m w) = tmplog w @ ''W:'' @ m"
  "tmplog (LOGI m w) = tmplog w @ ''I:'' @ m"
  by (simp_all add: LOGE_def LOGW_def LOGI_def)

lemma check_and_fclose_frame [simp]:
  "bcb (check_and_fclose err name w) = bcb w"
  "bcb_readable (check_and_fclose err name w) = bcb_readable w"
  "cache_mounts (check_and_fclose err name w) = cache_mounts w"
  "intent_opens (check_and_fclose err name w) = intent_opens w"
  "log_opens (check_and_fclose err name w) = log_opens w"
  "unlink_denied (check_and_fclose err name w) = unlink_denied w"
  "intent_fault (check_and_fclose err name w) = intent_fault w"
  "log_fault (check_and_fclose err name w) = log_fault w"
  "tmplog_fault (check_and_fclose err name w) = tmplog_fault w"
  "command_file (check_and_fclose err name w) = command_file w"
  "intent_file (check_and_fclose err name w) = intent_file w"
  "log_file (check_and_fclose err name w) = log_file w"
  "tmplog_readable (check_and_fclose err name w) = tmplog_readable w"
  "tmplog_offset (check_and_fclose err name w) = tmplog_offset w"
  by (simp_all add: check_and_fclose_def split: option.splits)

lemma check_and_fclose_tmplog [simp]:
  "tmplog (check_and_fclose err name w) = tmplog w @ error_line err name"
  by (simp add: check_and_fclose_def error_line_def split: option.splits)

lemma write_intent_frame [simp]:
  "bcb (write_intent i w) = bcb w"
  "bcb_readable (write_intent i w) = bcb_readable w"
  "cache_mounts (write_intent i w) = cache_mounts w"
  "intent_opens (write_intent i w) = intent_opens w"
  "log_opens (write_intent i w) = log_opens w"
  "unlink_denied (write_intent i w) = unlink_denied w"
  "intent_fault (write_intent i w) = intent_fault w"
  "log_fault (write_intent i w) = log_fault w"
  "tmplog_fault (write_intent i w) = tmplog_fault w"
  "command_file (write_intent i w) = command_file w"
  "log_file (write_intent i w) = log_file w"
  "tmplog_readable (write_intent i w) = tmplog_readable w"
  "tmplog_offset (write_intent i w) = tmplog_offset w"
  by (simp_all add: write_intent_def fopen_root_path_w_def split: option.splits bool.splits)



lemma copy_log_frame [simp]:
  "bcb (copy_log w) = bcb w"
  "bcb_readable (copy_log w) = bcb_readable w"
  "cache_mounts (copy_log w) = cache_mounts w"
  "intent_opens (copy_log w) = intent_opens w"
  "log_opens (copy_log w) = log_opens w"
  "unlink_denied (copy_log w) = unlink_denied w"
  "intent_fault (copy_log w) = intent_fault w"
  "log_fault (copy_log w) = log_fault w"
  "tmplog_fault (copy_log w) = tmplog_fault w"
  "command_file (copy_log w) = command_file w"
  "intent_file (copy_log w) = intent_file w"
  "tmplog_readable (copy_log w) = tmplog_readable w"
  by (simp_all add: copy_log_def fopen_root_path_w_def Let_def split: bool.splits prod.splits)




lemma remove_command_file_frame [simp]:
  "bcb (remove_command_file w) = bcb w"
  "bcb_readable (remove_command_file w) = bcb_readable w"
  "cache_mounts (remove_command_file w) = cache_mounts w"
  "intent_opens (remove_command_file w) = intent_opens w"
  "log_opens (remove_command_file w) = log_opens w"
  "unlink_denied (remove_command_file w) = unlink_denied w"
  "intent_fault (remove_command_file w) = intent_fault w"
  "log_fault (remove_command_file w) = log_fault w"
  "tmplog_fault (remove_command_file w) = tmplog_fault w"
  "intent_file (remove_command_file w) = intent_file w"
  "log_file (remove_command_file w) = log_file w"
  "tmplog_readable (remove_command_file w) = tmplog_readable w"
  "tmplog_offset (remove_command_file w) = tmplog_offset w"
  by (simp_all add: remove_command_file_def split: option.splits)

lemma remove_command_file_result:
  "command_file (remove_command_file w) =
     (if cache_mounts w \<and> \<not> unlink_denied w then None else command_file w)"
  by (simp add: remove_command_file_def split: option.splits)

lemma remove_command_file_tmplog:
  "tmplog (remove_command_file w) =
     (if cache_mounts w \<and> (command_file w = None \<or> \<not> unlink_denied w) then tmplog w
      else tmplog w @ ''W:Can't unlink '' @ COMMAND_FILE @ [nl])"
  by (simp add: remove_command_file_def split: option.splits)

lemma world_update_frame [simp]:
  "cache_mounts (w\<lparr>bcb := b\<rparr>) = cache_mounts w"
  "unlink_denied (w\<lparr>bcb := b\<rparr>) = unlink_denied w"
  "command_file (w\<lparr>bcb := b\<rparr>) = command_file w"
  "tmplog (w\<lparr>bcb := b\<rparr>) = tmplog w"
  by simp_all

section \<open>finish_recovery: the record, the files, the log\<close>

lemma finish_recovery_bcb: "bcb (finish_recovery L i w) = zeroed L"
  by (simp add: finish_recovery_def)

lemma finish_recovery_command_file:
  "command_file (finish_recovery L i w) =
     (if cache_mounts w \<and> \<not> unlink_denied w then None else command_file w)"
  by (simp add: finish_recovery_def remove_command_file_result)


lemma finish_recovery_flags [simp]:
  "cache_mounts (finish_recovery L i w) = cache_mounts w"
  "intent_opens (finish_recovery L i w) = intent_opens w"
  "log_opens (finish_recovery L i w) = log_opens w"
  "unlink_denied (finish_recovery L i w) = unlink_denied w"
  "intent_fault (finish_recovery L i w) = intent_fault w"
  "log_fault (finish_recovery L i w) = log_fault w"
  "tmplog_fault (finish_recovery L i w) = tmplog_fault w"
  "tmplog_readable (finish_recovery L i w) = tmplog_readable w"
  by (simp_all add: finish_recovery_def)




section \<open>The copy loop\<close>




lemma cstr_id: "NUL \<notin> set s \<Longrightarrow> cstr s = s"
  by (auto simp: cstr_def)

declare copy_lines.simps [simp del]

lemma copy_lines_Nil [simp]: "copy_lines [] = []"
  by (subst copy_lines.simps) (simp add: fgets_def)


lemma copy_rounds_Nil [simp]: "copy_rounds k [] = ([], [])"
  by (cases k) (simp_all add: fgets_def)

lemma copy_out_Nil [simp]: "copy_out fault [] = ([], [])"
  by (simp add: copy_out_def split: option.splits)




section \<open>Claims about finish_recovery\<close>

lemma accepted_Nil [simp]: "accepted fault [] = []"
  by (simp add: accepted_def split: option.splits)

lemma write_error_Nil [simp]: "write_error fault [] = None"
  by (simp add: write_error_def split: option.splits)

lemma read_error_Nil [simp]: "read_error fault [] = None"
  by (simp add: read_error_def split: option.splits)

lemma error_line_None [simp]: "error_line None name = []"
  by (simp add: error_line_def)



lemma intent_log_finish [simp]: "intent_log i (finish_recovery L j w) = intent_log i w"
  by (simp add: intent_log_def split: option.splits)







text \<open>
  Claim C4, as amended. Every call of \<open>finish_recovery\<close> stores the all-zero control
  block. The command file is gone afterwards when the cache volume mounts and \<open>unlink\<close>
  is not refused; a command file that does not exist is no failure and logs nothing.
  When the volume does not mount, or \<open>unlink\<close> of an existing file is refused, the file
  stays as it is and the warning is logged.
\<close>

theorem finish_recovery_clears_intent:
  "bcb (finish_recovery L i w) =
      \<lparr> command = replicate (command_size L) NUL, status = replicate (status_size L) NUL,
        recovery = replicate (recovery_size L) NUL \<rparr>
   \<and> command_file (finish_recovery L i w) =
        (if cache_mounts w \<and> \<not> unlink_denied w then None else command_file w)
   \<and> tmplog (finish_recovery L i w) =
        tmplog (copy_log (write_intent i w)) @
        (if cache_mounts w \<and> (command_file w = None \<or> \<not> unlink_denied w) then []
         else ''W:Can't unlink '' @ COMMAND_FILE @ [nl])"
proof -
  have "tmplog (finish_recovery L i w) =
          tmplog (copy_log (write_intent i w)) @
          (if cache_mounts w \<and> (command_file w = None \<or> \<not> unlink_denied w) then []
           else ''W:Can't unlink '' @ COMMAND_FILE @ [nl])"
    by (simp add: finish_recovery_def remove_command_file_tmplog)
  then show ?thesis
    by (simp add: finish_recovery_bcb finish_recovery_command_file zeroed_def)
qed

theorem finish_recovery_clears_intent_witness:
  "bcb (finish_recovery example_layout None (cold_boot\<lparr>command_file := Some (''--wipe_data'' @ [nl])\<rparr>))
     = zeroed example_layout
   \<and> command_file (finish_recovery example_layout None
        (cold_boot\<lparr>command_file := Some (''--wipe_data'' @ [nl])\<rparr>)) = None"
  using finish_recovery_clears_intent
          [of example_layout None "cold_boot\<lparr>command_file := Some (''--wipe_data'' @ [nl])\<rparr>"]
  by (simp add: cold_boot_def zeroed_def)

text \<open>
  Claim C4 as it is written fails where the cache volume does not mount: the call
  leaves the command file where it is.
\<close>

theorem finish_recovery_keeps_command_file_counterexample:
  "command_file (finish_recovery example_layout None
      (cold_boot\<lparr>cache_mounts := False, command_file := Some (''--wipe_data'' @ [nl])\<rparr>))
     = Some (''--wipe_data'' @ [nl])"
  by (simp add: finish_recovery_command_file cold_boot_def)





lemma accepted_None [simp]: "accepted None bytes = bytes"
  by (simp add: accepted_def)



section \<open>C strings under strlcpy and strlcat\<close>

lemma cstr_no_NUL: "NUL \<notin> set (cstr s)"
  by (auto simp: cstr_def dest: set_takeWhileD)

lemma cstr_append_NUL: "NUL \<notin> set s \<Longrightarrow> cstr (s @ NUL # r) = s"
  by (induction s) (auto simp: cstr_def)

lemma cstr_cstr [simp]: "cstr (cstr s) = cstr s"
  by (simp add: cstr_def)

lemma cstr_split: "\<exists>r. s = cstr s @ r \<and> (r = [] \<or> hd r = NUL)"
proof -
  have "s = cstr s @ dropWhile (\<lambda>c. c \<noteq> NUL) s"
    by (simp add: cstr_def)
  moreover have "dropWhile (\<lambda>c. c \<noteq> NUL) s = [] \<or> hd (dropWhile (\<lambda>c. c \<noteq> NUL) s) = NUL"
    using hd_dropWhile[of "\<lambda>c. c \<noteq> NUL" s] by auto
  ultimately show ?thesis by blast
qed

lemma cstr_take: 
  assumes "length (cstr d) < sz"
  shows "cstr (take sz d) = cstr d"
proof -
  obtain r where r: "d = cstr d @ r" "r = [] \<or> hd r = NUL"
    using cstr_split by blast
  have "take sz d = cstr d @ take (sz - length (cstr d)) r"
    using assms by (subst r(1)) (simp del: cstr_cstr)
  moreover have "cstr (cstr d @ take (sz - length (cstr d)) r) = cstr d"
  proof (cases r)
    case Nil
    then show ?thesis by simp
  next
    case (Cons c cs)
    with r(2) have "c = NUL" by simp
    moreover obtain k where "sz - length (cstr d) = Suc k"
      using assms by (cases "sz - length (cstr d)") auto
    ultimately show ?thesis
      using Cons by (simp add: cstr_append_NUL cstr_no_NUL)
  qed
  ultimately show ?thesis by simp
qed

lemma cstr_strlcpy: "0 < sz \<Longrightarrow> cstr (strlcpy d src sz) = take (sz - 1) (cstr src)"
proof -
  assume "0 < sz"
  have "NUL \<notin> set (take (sz - 1) (cstr src))"
    using cstr_no_NUL[of src] by (auto dest: in_set_takeD)
  then show ?thesis
    using \<open>0 < sz\<close> by (simp add: strlcpy_def Let_def cstr_append_NUL)
qed

lemma cstr_strlcat:
  assumes "length (cstr d) < sz"
  shows "cstr (strlcat d src sz) = take (sz - 1) (cstr d @ cstr src)"
proof -
  let ?n = "length (cstr d)"
  let ?s = "take (sz - ?n - 1) (cstr src)"
  have t: "take ?n d = cstr d"
    by (simp add: cstr_def takeWhile_eq_take[symmetric])
  have n: "NUL \<notin> set (cstr d @ ?s)"
    using cstr_no_NUL[of src] cstr_no_NUL[of d] by (auto dest: in_set_takeD)
  have "strlcat d src sz = (cstr d @ ?s) @ NUL # drop (?n + length ?s + 1) d"
    using assms by (simp add: strlcat_def Let_def cstr_take t del: length_take)
  then have "cstr (strlcat d src sz) = cstr d @ ?s"
    using n cstr_append_NUL by metis
  moreover have "take (sz - 1) (cstr d @ cstr src) = cstr d @ ?s"
    using assms by simp
  ultimately show ?thesis by simp
qed

lemma length_cstr_strlcat:
  "length (cstr d) < sz \<Longrightarrow> length (cstr (strlcat d src sz)) < sz"
  by (simp add: cstr_strlcat)

lemma take_take_append: "take n (take n xs @ ys) = take n (xs @ ys)"
  by (cases "n \<le> length xs") auto

lemma cstr_foldl_strlcat:
  assumes "length (cstr r) < sz"
  shows "cstr (foldl (\<lambda>r a. strlcat (strlcat r a sz) [nl] sz) r args) =
           take (sz - 1) (cstr r @ concat (map (\<lambda>a. cstr a @ [nl]) args))"
  using assms
proof (induction args arbitrary: r)
  case Nil
  then show ?case by simp
next
  case (Cons a args)
  let ?r1 = "strlcat (strlcat r a sz) [nl] sz"
  have l1: "length (cstr (strlcat r a sz)) < sz"
    using Cons.prems by (rule length_cstr_strlcat)
  have c1: "cstr ?r1 = take (sz - 1) (cstr r @ cstr a @ [nl])"
    using l1 Cons.prems
    by (simp add: cstr_strlcat[OF l1] cstr_strlcat[OF Cons.prems] take_take_append
             cstr_id NUL_def nl_def del: take_append)
  have l2: "length (cstr ?r1) < sz"
    using l1 by (rule length_cstr_strlcat)
  show ?case
    using Cons.IH[OF l2] by (simp add: c1 take_take_append del: take_append)
qed

lemma cstr_write_args:
  assumes "0 < recovery_size L"
  shows "cstr (write_args L rec argv) =
           take (recovery_size L - 1)
             (''recovery'' @ [nl] @ concat (map (\<lambda>a. cstr a @ [nl]) (tl argv)))"
proof -
  let ?r0 = "strlcpy rec (''recovery'' @ [nl]) (recovery_size L)"
  have c0: "cstr ?r0 = take (recovery_size L - 1) (''recovery'' @ [nl])"
    using assms by (simp add: cstr_strlcpy cstr_id NUL_def nl_def)
  then have "length (cstr ?r0) < recovery_size L"
    using assms by simp
  from cstr_foldl_strlcat[OF this] show ?thesis
    unfolding write_args_def c0 by (simp add: take_take_append del: take_append)
qed

section \<open>What get_args writes back\<close>

lemma args_from_file_frame:
  assumes "args_from_file argv w = Inr (argv', w')"
  shows "bcb w' = bcb w \<and> bcb_readable w' = bcb_readable w \<and> cache_mounts w' = cache_mounts w
       \<and> command_file w' = command_file w"
  using assms
  by (auto simp: args_from_file_def fopen_root_path_r_def
           split: if_splits option.splits list.splits sum.splits)

lemma args_from_bcb_frame:
  assumes "args_from_bcb L rec argv w = (argv', rec', w')"
  shows "bcb w' = bcb w \<and> bcb_readable w' = bcb_readable w \<and> cache_mounts w' = cache_mounts w
       \<and> command_file w' = command_file w"
  using assms
  by (auto simp: args_from_bcb_def Let_def split: if_splits option.splits prod.splits)

lemma log_boot_fields_frame [simp]:
  "bcb (log_boot_fields L b w) = bcb w"
  "bcb_readable (log_boot_fields L b w) = bcb_readable w"
  "cache_mounts (log_boot_fields L b w) = cache_mounts w"
  "command_file (log_boot_fields L b w) = command_file w"
  by (simp_all add: log_boot_fields_def Let_def)

lemma get_args_many:
  assumes "1 < length argv"
  shows "get_args L w argv =
           Inr (argv, (log_boot_fields L (if bcb_readable w then bcb w else zeroed L) w)
                 \<lparr>bcb := (if bcb_readable w then bcb w else zeroed L)
                     \<lparr>command := strlcpy (command (if bcb_readable w then bcb w else zeroed L))
                                   ''boot-recovery'' (command_size L),
                      recovery := write_args L (recovery (if bcb_readable w then bcb w else zeroed L)) argv\<rparr>\<rparr>)"
  using assms by (simp add: get_args_def Let_def)

lemma get_args_written:
  assumes "get_args L w argv = Inr (argv', w')"
  shows "\<exists>rec1. bcb w' = (if bcb_readable w then bcb w else zeroed L)
                     \<lparr>command := strlcpy (command (if bcb_readable w then bcb w else zeroed L))
                                   ''boot-recovery'' (command_size L),
                      recovery := write_args L rec1 argv'\<rparr>"
  using assms
  by (auto simp: get_args_def Let_def split: prod.splits sum.splits if_splits)

lemma get_args_frame:
  assumes "get_args L w argv = Inr (argv', w')"
  shows "bcb_readable w' = bcb_readable w \<and> cache_mounts w' = cache_mounts w
       \<and> command_file w' = command_file w"
proof -
  let ?boot = "if bcb_readable w then bcb w else zeroed L"
  let ?w1 = "log_boot_fields L ?boot w"
  obtain argv1 rec1 w2 where s1:
    "(if length argv \<le> 1 then args_from_bcb L (recovery ?boot) argv ?w1
      else (argv, recovery ?boot, ?w1)) = (argv1, rec1, w2)"
    by (metis prod_cases3)
  have f1: "bcb_readable w2 = bcb_readable w \<and> cache_mounts w2 = cache_mounts w
       \<and> command_file w2 = command_file w"
    using s1 args_from_bcb_frame[of L "recovery ?boot" argv ?w1 argv1 rec1 w2]
    by (auto split: if_splits)
  obtain argv2 w3 where s2:
    "(if length argv1 \<le> 1 then args_from_file argv1 w2 else Inr (argv1, w2)) = Inr (argv2, w3)"
    and w': "w' = w3\<lparr>bcb := ?boot\<lparr>command := strlcpy (command ?boot) ''boot-recovery'' (command_size L),
                                  recovery := write_args L rec1 argv2\<rparr>\<rparr>"
    using assms s1 by (auto simp: get_args_def Let_def split: sum.splits)
  have f2: "bcb_readable w3 = bcb_readable w2 \<and> cache_mounts w3 = cache_mounts w2
       \<and> command_file w3 = command_file w2"
    using s2 args_from_file_frame[of argv1 w2 argv2 w3] by (auto split: if_splits)
  show ?thesis using f1 f2 w' by simp
qed

lemma get_args_recovery_text:
  assumes "get_args L w argv = Inr (argv', w')" and "0 < recovery_size L"
  shows "cstr (recovery (bcb w')) =
           take (recovery_size L - 1)
             (''recovery'' @ [nl] @ concat (map (\<lambda>a. cstr a @ [nl]) (tl argv')))"
proof -
  from get_args_written[OF assms(1)] obtain rec1 where
    "recovery (bcb w') = write_args L rec1 argv'" by auto
  then show ?thesis using cstr_write_args[OF assms(2)] by simp
qed

lemma get_args_command_text:
  assumes "get_args L w argv = Inr (argv', w')" and "0 < command_size L"
  shows "cstr (command (bcb w')) = take (command_size L - 1) ''boot-recovery''"
proof -
  from get_args_written[OF assms(1)] have
    "command (bcb w') = strlcpy (command (if bcb_readable w then bcb w else zeroed L))
                                   ''boot-recovery'' (command_size L)" by auto
  then show ?thesis using cstr_strlcpy[OF assms(2)] by (simp add: cstr_id NUL_def)
qed

text \<open>
  Claim C2, as amended. After every call of \<open>get_args\<close> that returns, whichever branch
  gave the arguments, the control block that was written back holds \<open>boot-recovery\<close>
  in its \<open>command\<close> field (of at least 14 bytes) and, in its \<open>recovery\<close> field, the
  text \<open>recovery\<close>, a newline and every argument behind argument 0 with a newline each,
  cut off at one byte less than the capacity of the field; the \<open>status\<close> field is as
  it was read. When the whole text fits, the field holds all of it.
\<close>

theorem get_args_commits:
  assumes "get_args L w argv = Inr (argv', w')"
    and "14 \<le> command_size L" and "0 < recovery_size L"
  shows "cstr (command (bcb w')) = ''boot-recovery''
       \<and> cstr (recovery (bcb w')) =
           take (recovery_size L - 1)
             (''recovery'' @ [nl] @ concat (map (\<lambda>a. cstr a @ [nl]) (tl argv')))
       \<and> (length (''recovery'' @ [nl] @ concat (map (\<lambda>a. cstr a @ [nl]) (tl argv'))) < recovery_size L
            \<longrightarrow> cstr (recovery (bcb w')) =
                  ''recovery'' @ [nl] @ concat (map (\<lambda>a. cstr a @ [nl]) (tl argv')))
       \<and> status (bcb w') = status (if bcb_readable w then bcb w else zeroed L)"
proof -
  have c: "cstr (command (bcb w')) = ''boot-recovery''"
    using get_args_command_text[OF assms(1)] assms(2) by simp
  have r: "cstr (recovery (bcb w')) =
           take (recovery_size L - 1)
             (''recovery'' @ [nl] @ concat (map (\<lambda>a. cstr a @ [nl]) (tl argv')))"
    using get_args_recovery_text[OF assms(1) assms(3)] .
  have s: "status (bcb w') = status (if bcb_readable w then bcb w else zeroed L)"
    using get_args_written[OF assms(1)] by auto
  from c r s show ?thesis by (simp del: take_append)
qed

theorem get_args_commits_witness:
  "cstr (command (bcb (snd (projr (get_args example_layout cold_boot [''recovery'', ''--wipe_data''])))))
     = ''boot-recovery''
   \<and> cstr (recovery (bcb (snd (projr (get_args example_layout cold_boot [''recovery'', ''--wipe_data''])))))
     = ''recovery'' @ [nl] @ ''--wipe_data'' @ [nl]"
proof -
  let ?argv = "[''recovery'', ''--wipe_data'']"
  obtain w' where g: "get_args example_layout cold_boot ?argv = Inr (?argv, w')"
    using get_args_many[of ?argv example_layout cold_boot] by simp
  have c: "14 \<le> command_size example_layout" and r: "0 < recovery_size example_layout"
    by (simp_all add: example_layout_def)
  show ?thesis
    using get_args_commits[OF g c r] g
    by (simp add: example_layout_def cstr_id NUL_def)
qed

text \<open>
  Claim C2 as it is written fails when the arguments do not fit the \<open>recovery\<close> field:
  with 1024 bytes and an argument of 1100 bytes the field holds the first 1023 bytes of
  the text, not the argument and its newline.
\<close>

theorem get_args_commits_counterexample:
  "map_sum id fst (get_args example_layout cold_boot [''recovery'', replicate 1100 (CHR ''a'')])
     = Inr [''recovery'', replicate 1100 (CHR ''a'')]
   \<and> cstr (recovery (bcb (snd (projr
        (get_args example_layout cold_boot [''recovery'', replicate 1100 (CHR ''a'')])))))
     = ''recovery'' @ [nl] @ replicate 1014 (CHR ''a'')
   \<and> ''recovery'' @ [nl] @ replicate 1014 (CHR ''a'')
       \<noteq> ''recovery'' @ [nl] @ replicate 1100 (CHR ''a'') @ [nl]"
proof -
  let ?argv = "[''recovery'', replicate 1100 (CHR ''a'')]"
  obtain w' where g: "get_args example_layout cold_boot ?argv = Inr (?argv, w')"
    using get_args_many[of ?argv example_layout cold_boot] by simp
  have r: "0 < recovery_size example_layout"
    by (simp add: example_layout_def)
  have "cstr (recovery (bcb w')) = ''recovery'' @ [nl] @ replicate 1014 (CHR ''a'')"
    using get_args_recovery_text[OF g r]
    by (simp add: example_layout_def cstr_id NUL_def)
  moreover have "''recovery'' @ [nl] @ replicate 1014 (CHR ''a'')
       \<noteq> ''recovery'' @ [nl] @ replicate 1100 (CHR ''a'') @ [nl]"
  proof
    assume "''recovery'' @ [nl] @ replicate 1014 (CHR ''a'')
       = ''recovery'' @ [nl] @ replicate 1100 (CHR ''a'') @ [nl]"
    then have "length (''recovery'' @ [nl] @ replicate 1014 (CHR ''a''))
       = length (''recovery'' @ [nl] @ replicate 1100 (CHR ''a'') @ [nl])"
      by (rule arg_cong)
    then show False by simp
  qed
  ultimately show ?thesis using g by simp
qed

section \<open>Reading back what was written\<close>

lemma nl_neq_NUL [simp]: "nl \<noteq> NUL" "NUL \<noteq> nl"
  by (simp_all add: nl_def NUL_def)

lemma takeWhile_plain:
  "NUL \<notin> set a \<Longrightarrow> nl \<notin> set a \<Longrightarrow>
   takeWhile (\<lambda>c. c \<noteq> NUL \<and> c \<noteq> nl) (a @ t) = a @ takeWhile (\<lambda>c. c \<noteq> NUL \<and> c \<noteq> nl) t"
  by (induction a) auto

lemma dropWhile_plain:
  "NUL \<notin> set a \<Longrightarrow> nl \<notin> set a \<Longrightarrow>
   dropWhile (\<lambda>c. c \<noteq> NUL \<and> c \<noteq> nl) (a @ t) = dropWhile (\<lambda>c. c \<noteq> NUL \<and> c \<noteq> nl) t"
  by (induction a) auto

lemma strtok_line:
  assumes "plain a"
  shows "strtok (a @ nl # r) [nl] = Some (a, a @ [NUL], r)"
proof -
  have f: "takeWhile (\<lambda>c. c \<noteq> NUL \<and> c \<noteq> nl) (a @ nl # r) = a"
       "dropWhile (\<lambda>c. c \<noteq> NUL \<and> c \<noteq> nl) (a @ nl # r) = nl # r"
    using assms by (simp_all add: plain_def takeWhile_plain dropWhile_plain)
  have g: "takeWhile (\<lambda>c. c = nl) (a @ nl # r) = []"
       "dropWhile (\<lambda>c. c = nl) (a @ nl # r) = a @ nl # r"
    using assms by (cases a; auto simp: plain_def)+
  have h: "a \<noteq> []" using assms by (simp add: plain_def)
  show ?thesis
    by (simp add: strtok_def Let_def f g h)
qed

lemma skip_none:
  assumes "plain a"
  shows "takeWhile (\<lambda>c. c = nl) (a @ t) = []" and "dropWhile (\<lambda>c. c = nl) (a @ t) = a @ t"
  using assms by (cases a; auto simp: plain_def)+

lemma strtok_last:
  assumes "plain a" and "t = [] \<or> hd t = NUL"
  shows "strtok (a @ t) [nl] = Some (a, a, t)"
proof (cases t)
  case Nil
  have f: "takeWhile (\<lambda>c. c \<noteq> NUL \<and> c \<noteq> nl) a = a" "dropWhile (\<lambda>c. c \<noteq> NUL \<and> c \<noteq> nl) a = []"
    using assms(1) takeWhile_plain[of a "[]"] dropWhile_plain[of a "[]"]
    by (simp_all add: plain_def)
  have g: "takeWhile (\<lambda>c. c = nl) a = []" "dropWhile (\<lambda>c. c = nl) a = a"
    using skip_none[OF assms(1), of "[]"] by simp_all
  have h: "a \<noteq> []" using assms(1) by (simp add: plain_def)
  show ?thesis
    unfolding Nil by (simp add: strtok_def Let_def f g h)
next
  case (Cons c r)
  with assms(2) have c: "c = NUL" by simp
  have f: "takeWhile (\<lambda>c. c \<noteq> NUL \<and> c \<noteq> nl) (a @ NUL # r) = a"
       "dropWhile (\<lambda>c. c \<noteq> NUL \<and> c \<noteq> nl) (a @ NUL # r) = NUL # r"
    using assms(1) by (simp_all add: plain_def takeWhile_plain dropWhile_plain)
  have g: "takeWhile (\<lambda>c. c = nl) (a @ NUL # r) = []"
       "dropWhile (\<lambda>c. c = nl) (a @ NUL # r) = a @ NUL # r"
    using skip_none[OF assms(1)] by simp_all
  have h: "a \<noteq> []" using assms(1) by (simp add: plain_def)
  show ?thesis
    unfolding Cons c by (simp add: strtok_def Let_def f g h)
qed

lemma strtok_end:
  assumes "t = [] \<or> hd t = NUL"
  shows "strtok t [nl] = None"
  using assms by (cases t) (auto simp: strtok_def)

lemma strtok_args_end:
  assumes "t = [] \<or> hd t = NUL"
  shows "fst (strtok_args n t) = []"
  using strtok_end[OF assms] by (cases n) simp_all

lemma strtok_args_last:
  assumes "plain a" and "t = [] \<or> hd t = NUL"
  shows "fst (strtok_args (Suc n) (a @ t)) = [a]"
  using strtok_last[OF assms] strtok_args_end[OF assms(2), of n]
  by (auto split: prod.splits)

lemma strtok_args_lines:
  assumes "\<forall>a\<in>set as. plain a" and "length as \<le> n"
  shows "fst (strtok_args n (concat (map (\<lambda>a. a @ [nl]) as) @ t)) =
           as @ fst (strtok_args (n - length as) t)"
  using assms
proof (induction as arbitrary: n)
  case Nil
  then show ?case by simp
next
  case (Cons a as)
  then obtain m where n: "n = Suc m" by (cases n) auto
  have p: "plain a" using Cons.prems by simp
  have "fst (strtok_args m (concat (map (\<lambda>a. a @ [nl]) as) @ t)) =
           as @ fst (strtok_args (m - length as) t)"
    using Cons.IH[of m] Cons.prems n by simp
  then show ?case
    using strtok_line[OF p, of "concat (map (\<lambda>a. a @ [nl]) as) @ t"] n
    by (auto split: prod.splits)
qed

text \<open>
  The text of the arguments, whole or without its last newline, in front of the
  terminator: \<open>strtok\<close> gives the arguments back.
\<close>

lemma strtok_args_text:
  assumes "\<forall>a\<in>set as. plain a" and "length as \<le> n"
    and "cs = concat (map (\<lambda>a. a @ [nl]) as) \<or> cs @ [nl] = concat (map (\<lambda>a. a @ [nl]) as)"
    and "t = [] \<or> hd t = NUL"
  shows "fst (strtok_args n (cs @ t)) = as"
proof (cases "cs = concat (map (\<lambda>a. a @ [nl]) as)")
  case True
  then show ?thesis
    using strtok_args_lines[OF assms(1,2), of t] strtok_args_end[OF assms(4)] by simp
next
  case False
  with assms(3) have e: "cs @ [nl] = concat (map (\<lambda>a. a @ [nl]) as)" by simp
  then have "as \<noteq> []" by auto
  then obtain bs b where as: "as = bs @ [b]" by (metis rev_exhaust)
  with e have cs: "cs = concat (map (\<lambda>a. a @ [nl]) bs) @ b" by simp
  have pb: "plain b" and pbs: "\<forall>a\<in>set bs. plain a" using assms(1) as by auto
  have l: "length bs \<le> n" using assms(2) as by simp
  obtain k where k: "n - length bs = Suc k" using assms(2) as by (cases "n - length bs") auto
  show ?thesis
    using strtok_args_lines[OF pbs l, of "b @ t"] strtok_args_last[OF pb assms(4), of k] k cs as
    by simp
qed

lemma cstr_update_NUL:
  assumes "length (cstr d) \<le> n"
  shows "cstr (d[n := NUL]) = cstr d"
proof -
  obtain r where r: "d = cstr d @ r" "r = [] \<or> hd r = NUL"
    using cstr_split by blast
  have "d[n := NUL] = cstr d @ r[n - length (cstr d) := NUL]"
    using assms by (subst r(1)) (simp add: list_update_append del: cstr_cstr)
  moreover have "cstr (cstr d @ r[n - length (cstr d) := NUL]) = cstr d"
  proof (cases r)
    case Nil
    then show ?thesis by simp
  next
    case (Cons c cs)
    with r(2) have "c = NUL" by simp
    then show ?thesis
      using Cons by (cases "n - length (cstr d)") (simp_all add: cstr_append_NUL cstr_no_NUL)
  qed
  ultimately show ?thesis by simp
qed

lemma plain_recovery: "plain ''recovery''"
  by (simp add: plain_def NUL_def nl_def)

lemma concat_lines_last:
  assumes "as \<noteq> []"
  shows "\<exists>C'. concat (map (\<lambda>a. a @ [nl]) as) = C' @ [nl]"
proof -
  obtain bs b where "as = bs @ [b]" using assms by (metis rev_exhaust)
  then have "concat (map (\<lambda>a. a @ [nl]) as) = (concat (map (\<lambda>a. a @ [nl]) bs) @ b) @ [nl]"
    by simp
  then show ?thesis by blast
qed

text \<open>
  The control block branch on a \<open>recovery\<close> field that holds the text of the plain
  arguments \<open>as\<close>, whole or short of its last newline.
\<close>

lemma args_from_bcb_text:
  assumes rs: "0 < recovery_size L"
    and text0: "cstr rec = take (recovery_size L - 1) (''recovery'' @ nl # concat (map (\<lambda>a. a @ [nl]) as))"
    and fits: "length (''recovery'' @ nl # concat (map (\<lambda>a. a @ [nl]) as)) \<le> recovery_size L"
    and pl: "\<forall>a\<in>set as. plain a" and n: "length as \<le> MAX_ARGS - 1"
  shows "\<exists>rec'. args_from_bcb L rec argv w =
           (''recovery'' # as, rec', LOGI (''Got arguments from boot message'' @ [nl]) w)"
proof -
  define C where "C = concat (map (\<lambda>a. a @ [nl]) as)"
  define rec0 where "rec0 = rec[recovery_size L - 1 := NUL]"
  have len: "length (cstr rec) \<le> recovery_size L - 1"
    unfolding text0 by simp
  have c0: "cstr rec0 = cstr rec"
    unfolding rec0_def by (rule cstr_update_NUL[OF len])
  obtain t where t: "rec0 = cstr rec @ t" "t = [] \<or> hd t = NUL"
    using cstr_split[of rec0] c0 by auto
  have shape: "cstr rec = ''recovery'' @ nl # C
       \<or> (as = [] \<and> cstr rec = ''recovery'')
       \<or> (\<exists>C'. C = C' @ [nl] \<and> cstr rec = ''recovery'' @ nl # C')"
  proof (cases "length (''recovery'' @ nl # C) \<le> recovery_size L - 1")
    case True
    then show ?thesis using text0 unfolding C_def by simp
  next
    case False
    with fits have l: "recovery_size L - 1 = length (''recovery'' @ nl # C) - 1"
      unfolding C_def by simp
    have b: "cstr rec = butlast (''recovery'' @ nl # C)"
      unfolding text0 C_def[symmetric] l by (simp add: butlast_conv_take)
    show ?thesis
    proof (cases "as = []")
      case True
      then have "C = []" by (simp add: C_def)
      with b True show ?thesis by simp
    next
      case False
      then obtain C' where "C = C' @ [nl]"
        using concat_lines_last unfolding C_def by blast
      with b show ?thesis by (simp add: butlast_append)
    qed
  qed
  have tok: "\<exists>sc rest. strtok rec0 [nl] = Some (''recovery'', sc, rest)
                \<and> fst (strtok_args (MAX_ARGS - 1) rest) = as"
  proof -
    consider (whole) "cstr rec = ''recovery'' @ nl # C"
      | (none) "as = []" "cstr rec = ''recovery''"
      | (short) C' where "C = C' @ [nl]" "cstr rec = ''recovery'' @ nl # C'"
      using shape by blast
    then show ?thesis
    proof cases
      case whole
      have "rec0 = ''recovery'' @ nl # (C @ t)" using t(1) whole by simp
      then have "strtok rec0 [nl] = Some (''recovery'', ''recovery'' @ [NUL], C @ t)"
        using strtok_line[OF plain_recovery, of "C @ t"] by simp
      moreover have "fst (strtok_args (MAX_ARGS - 1) (C @ t)) = as"
        using strtok_args_text[OF pl n _ t(2), of C] by (simp add: C_def)
      ultimately show ?thesis by blast
    next
      case none
      have "rec0 = ''recovery'' @ t" using t(1) none by simp
      then have "strtok rec0 [nl] = Some (''recovery'', ''recovery'', t)"
        using strtok_last[OF plain_recovery t(2)] by simp
      moreover have "fst (strtok_args (MAX_ARGS - 1) t) = as"
        using strtok_args_end[OF t(2)] none by simp
      ultimately show ?thesis by blast
    next
      case short
      have "rec0 = ''recovery'' @ nl # (C' @ t)" using t(1) short by simp
      then have "strtok rec0 [nl] = Some (''recovery'', ''recovery'' @ [NUL], C' @ t)"
        using strtok_line[OF plain_recovery, of "C' @ t"] by simp
      moreover have "fst (strtok_args (MAX_ARGS - 1) (C' @ t)) = as"
        using strtok_args_text[OF pl n _ t(2), of C'] short(1) by (simp add: C_def)
      ultimately show ?thesis by blast
    qed
  qed
  then obtain sc rest where s: "strtok rec0 [nl] = Some (''recovery'', sc, rest)"
    and a: "fst (strtok_args (MAX_ARGS - 1) rest) = as" by blast
  obtain rest' where "strtok_args (MAX_ARGS - 1) rest = (as, rest')"
    using a by (cases "strtok_args (MAX_ARGS - 1) rest") auto
  then show ?thesis
    using s unfolding args_from_bcb_def rec0_def[symmetric] by (simp add: Let_def)
qed

lemma get_args_one:
  assumes "length argv \<le> 1"
    and "args_from_bcb L (recovery (if bcb_readable w then bcb w else zeroed L)) argv
           (log_boot_fields L (if bcb_readable w then bcb w else zeroed L) w) = (argv1, rec1, w2)"
  shows "get_args L w argv =
           (case (if length argv1 \<le> 1 then args_from_file argv1 w2 else Inr (argv1, w2)) of
              Inl e \<Rightarrow> Inl e
            | Inr (argv2, w3) \<Rightarrow>
                Inr (argv2,
                     w3\<lparr>bcb := (if bcb_readable w then bcb w else zeroed L)
                          \<lparr>command := strlcpy (command (if bcb_readable w then bcb w else zeroed L))
                                        ''boot-recovery'' (command_size L),
                           recovery := write_args L rec1 argv2\<rparr>\<rparr>))"
  using assms by (simp add: get_args_def Let_def)

text \<open>
  When a call returns no argument behind argument 0, the command file gave none: the
  volume did not mount, the file was not there, or it held no line.
\<close>

lemma no_args_from_file:
  assumes "args_from_file argv w = Inr (C, w')" and "tl C = []" and "length argv \<le> 1"
  shows "\<exists>w''. args_from_file [a] w = Inr ([a], w'')"
  using assms
  by (auto simp: args_from_file_def fopen_root_path_r_def
           split: if_splits option.splits list.splits sum.splits)

lemma args_from_file_same_files:
  assumes "cache_mounts v = cache_mounts w" and "command_file v = command_file w"
    and "args_from_file [a] w = Inr ([a], w')"
  shows "\<exists>v'. args_from_file [a] v = Inr ([a], v')"
  using assms
  by (auto simp: args_from_file_def fopen_root_path_r_def
           split: if_splits option.splits list.splits sum.splits)

lemma get_args_no_args:
  assumes "get_args L w argv = Inr (C, w1)" and "tl C = []"
  shows "\<exists>w''. args_from_file [a] w = Inr ([a], w'')"
proof -
  let ?boot = "if bcb_readable w then bcb w else zeroed L"
  let ?w1 = "log_boot_fields L ?boot w"
  have small: "length argv \<le> 1"
  proof (rule ccontr)
    assume "\<not> length argv \<le> 1"
    then have "1 < length argv" by simp
    from get_args_many[OF this, of L w] assms(1) have "C = argv" by simp
    with \<open>1 < length argv\<close> assms(2) show False by (cases argv) auto
  qed
  obtain argv1 rec1 w2 where s1: "args_from_bcb L (recovery ?boot) argv ?w1 = (argv1, rec1, w2)"
    by (metis prod_cases3)
  have f1: "cache_mounts w2 = cache_mounts w \<and> command_file w2 = command_file w"
    using args_from_bcb_frame[OF s1] by simp
  note g = get_args_one[OF small s1]
  have small1: "length argv1 \<le> 1"
  proof (rule ccontr)
    assume "\<not> length argv1 \<le> 1"
    then have "C = argv1" "1 < length argv1" using g assms(1) by auto
    with assms(2) show False by (cases argv1) auto
  qed
  obtain w3 where "args_from_file argv1 w2 = Inr (C, w3)"
    using g assms(1) small1 by (auto split: sum.splits)
  from no_args_from_file[OF this assms(2) small1, of a]
  obtain w4 where "args_from_file [a] w2 = Inr ([a], w4)" by blast
  from args_from_file_same_files[OF _ _ this, of w] f1 show ?thesis by simp
qed

text \<open>
  A readable control block whose \<open>recovery\<close> field holds the text of at least one
  plain argument decides a call without invocation arguments; the command file is not
  looked at.
\<close>

lemma get_args_reads_text:
  assumes rd: "bcb_readable w" and rs: "0 < recovery_size L"
    and tx: "cstr (recovery (bcb w)) =
      take (recovery_size L - 1) (''recovery'' @ nl # concat (map (\<lambda>a. a @ [nl]) as))"
    and fits: "length (''recovery'' @ nl # concat (map (\<lambda>a. a @ [nl]) as)) \<le> recovery_size L"
    and pl: "\<forall>a\<in>set as. plain a" and n: "length as \<le> MAX_ARGS - 1" and ne: "as \<noteq> []"
    and small: "length argv \<le> 1"
  shows "\<exists>w'. get_args L w argv = Inr (''recovery'' # as, w')"
proof -
  let ?w1 = "log_boot_fields L (bcb w) w"
  obtain rec' where b: "args_from_bcb L (recovery (bcb w)) argv ?w1 =
      (''recovery'' # as, rec', LOGI (''Got arguments from boot message'' @ [nl]) ?w1)"
    using args_from_bcb_text[OF rs tx fits pl n, of argv ?w1] by blast
  have b': "args_from_bcb L (recovery (if bcb_readable w then bcb w else zeroed L)) argv
           (log_boot_fields L (if bcb_readable w then bcb w else zeroed L) w) =
      (''recovery'' # as, rec', LOGI (''Got arguments from boot message'' @ [nl]) ?w1)"
    using b rd by simp
  show ?thesis
    using get_args_one[OF small b'] ne by (cases as) auto
qed

text \<open>
  Claim C1, as amended. Let a call of \<open>get_args\<close> return the Command \<open>C\<close>, by
  whichever branch, with at most \<open>MAX_ARGS\<close> entries, every argument behind argument 0
  plain (not empty, no newline in it), and the written text filling the \<open>recovery\<close>
  field at most up to its last newline. Then a call with no invocation arguments on the
  world the first call left, the control block readable, returns the same arguments
  behind the placeholder \<open>recovery\<close>.
\<close>

theorem get_args_round_trip:
  assumes g: "get_args L w argv = Inr (C, w1)"
    and rd: "bcb_readable w1"
    and rs: "0 < recovery_size L"
    and pl: "\<forall>a\<in>set (tl C). plain a"
    and n: "length C \<le> MAX_ARGS"
    and fits: "length (''recovery'' @ nl # concat (map (\<lambda>a. a @ [nl]) (tl C))) \<le> recovery_size L"
  shows "\<exists>w2. get_args L w1 [p] = Inr (''recovery'' # tl C, w2)"
proof -
  have m: "map (\<lambda>a. cstr a @ [nl]) (tl C) = map (\<lambda>a. a @ [nl]) (tl C)"
    using pl by (auto simp: plain_def cstr_id)
  have tx: "cstr (recovery (bcb w1)) =
      take (recovery_size L - 1) (''recovery'' @ nl # concat (map (\<lambda>a. a @ [nl]) (tl C)))"
    using get_args_recovery_text[OF g rs] unfolding m by simp
  have n': "length (tl C) \<le> MAX_ARGS - 1" using n by simp
  let ?w1 = "log_boot_fields L (bcb w1) w1"
  obtain rec' where b: "args_from_bcb L (recovery (bcb w1)) [p] ?w1 =
      (''recovery'' # tl C, rec', LOGI (''Got arguments from boot message'' @ [nl]) ?w1)"
    using args_from_bcb_text[OF rs tx fits pl n', of "[p]" ?w1] by blast
  have b': "args_from_bcb L (recovery (if bcb_readable w1 then bcb w1 else zeroed L)) [p]
           (log_boot_fields L (if bcb_readable w1 then bcb w1 else zeroed L) w1) =
      (''recovery'' # tl C, rec', LOGI (''Got arguments from boot message'' @ [nl]) ?w1)"
    using b rd by simp
  have one: "length [p] \<le> 1" by simp
  note second = get_args_one[OF one b']
  show ?thesis
  proof (cases "tl C = []")
    case False
    then show ?thesis using second by (cases "tl C") auto
  next
    case True
    from get_args_no_args[OF g True, of "''recovery''"]
    obtain w'' where f: "args_from_file [''recovery''] w = Inr ([''recovery''], w'')" by blast
    have fr: "cache_mounts w1 = cache_mounts w \<and> command_file w1 = command_file w"
      using get_args_frame[OF g] by simp
    obtain v' where "args_from_file [''recovery'']
        (LOGI (''Got arguments from boot message'' @ [nl]) ?w1) = Inr ([''recovery''], v')"
      using args_from_file_same_files[OF _ _ f,
              of "LOGI (''Got arguments from boot message'' @ [nl]) ?w1"] fr
      by auto
    then show ?thesis using second True by simp
  qed
qed

theorem get_args_round_trip_witness:
  "map_sum id fst (get_args example_layout cold_boot [''/sbin/recovery'', ''--wipe_data''])
     = Inr [''/sbin/recovery'', ''--wipe_data'']
   \<and> map_sum id fst (get_args example_layout
       (snd (projr (get_args example_layout cold_boot [''/sbin/recovery'', ''--wipe_data''])))
       [''recovery''])
     = Inr [''recovery'', ''--wipe_data'']"
proof -
  let ?C = "[''/sbin/recovery'', ''--wipe_data'']"
  obtain w1 where g: "get_args example_layout cold_boot ?C = Inr (?C, w1)"
    using get_args_many[of ?C example_layout cold_boot] by simp
  have rd: "bcb_readable w1"
    using get_args_frame[OF g] by (simp add: cold_boot_def)
  have rs: "0 < recovery_size example_layout"
    by (simp add: example_layout_def)
  have pl: "\<forall>a\<in>set (tl ?C). plain a"
    by (simp add: plain_def NUL_def nl_def)
  have n: "length ?C \<le> MAX_ARGS"
    by (simp add: MAX_ARGS_def)
  have fits: "length (''recovery'' @ nl # concat (map (\<lambda>a. a @ [nl]) (tl ?C)))
                \<le> recovery_size example_layout"
    by (simp add: example_layout_def)
  obtain w2 where "get_args example_layout w1 [''recovery''] = Inr (''recovery'' # tl ?C, w2)"
    using get_args_round_trip[OF g rd rs pl n fits, of "''recovery''"] by blast
  with g show ?thesis by simp
qed

text \<open>
  Claim C1 as it is written fails for an invocation argument that holds a newline: the
  Command is written on two lines and comes back as three arguments.
\<close>

theorem get_args_round_trip_counterexample:
  "map_sum id fst (get_args example_layout cold_boot [''recovery'', ''--send_intent=a'' @ [nl] @ ''b''])
     = Inr [''recovery'', ''--send_intent=a'' @ [nl] @ ''b'']
   \<and> map_sum id fst (get_args example_layout
       (snd (projr (get_args example_layout cold_boot
                      [''recovery'', ''--send_intent=a'' @ [nl] @ ''b''])))
       [''recovery''])
     = Inr [''recovery'', ''--send_intent=a'', ''b'']"
proof -
  let ?A = "[''recovery'', ''--send_intent=a'' @ [nl] @ ''b'']"
  let ?as = "[''--send_intent=a'', ''b'']"
  obtain w1 where g: "get_args example_layout cold_boot ?A = Inr (?A, w1)"
    using get_args_many[of ?A example_layout cold_boot] by simp
  have rd: "bcb_readable w1"
    using get_args_frame[OF g] by (simp add: cold_boot_def)
  have rs: "0 < recovery_size example_layout"
    by (simp add: example_layout_def)
  have tx: "cstr (recovery (bcb w1)) =
      take (recovery_size example_layout - 1)
        (''recovery'' @ nl # concat (map (\<lambda>a. a @ [nl]) ?as))"
    using get_args_recovery_text[OF g rs]
    by (simp add: example_layout_def cstr_id NUL_def nl_def)
  have fits: "length (''recovery'' @ nl # concat (map (\<lambda>a. a @ [nl]) ?as))
                \<le> recovery_size example_layout"
    by (simp add: example_layout_def)
  have pl: "\<forall>a\<in>set ?as. plain a"
    by (simp add: plain_def NUL_def nl_def)
  have n: "length ?as \<le> MAX_ARGS - 1"
    by (simp add: MAX_ARGS_def)
  obtain w2 where "get_args example_layout w1 [''recovery''] = Inr (''recovery'' # ?as, w2)"
    using get_args_reads_text[OF rd rs tx fits pl n, of "[''recovery'']"] by auto
  with g show ?thesis by simp
qed

section \<open>Absent fields\<close>

lemma present_replicate_NUL [simp]: "\<not> present (replicate n NUL)"
  by (cases n) (simp_all add: present_def)

lemma xFF_neq [simp]: "xFF \<noteq> nl" "xFF \<noteq> NUL" "xFF \<noteq> CHR ''r''"
  by (simp_all add: xFF_def nl_def NUL_def)

lemma strtok_NUL_head: "strtok (NUL # s) [nl] = None"
  by (simp add: strtok_def)

lemma strtok_Nil: "strtok [] [nl] = None"
  by (simp add: strtok_def)

lemma strtok_xFF_head:
  "\<exists>tok sc rest. strtok (xFF # s) [nl] = Some (xFF # tok, xFF # sc, rest)"
  by (simp add: strtok_def Let_def split: list.splits)

text \<open>
  A \<open>recovery\<close> field that starts with 0x00 or 0xFF gives no argument and no log line.
\<close>

lemma args_from_bcb_absent:
  assumes "\<not> present rec"
  shows "\<exists>rec'. args_from_bcb L rec argv w = (argv, rec', w)"
proof (cases rec)
  case Nil
  then show ?thesis
    by (simp add: args_from_bcb_def strtok_Nil present_def)
next
  case (Cons c cs)
  with assms have c: "c = NUL \<or> c = xFF" by (auto simp: present_def)
  obtain d ds where u: "rec[recovery_size L - 1 := NUL] = d # ds" "d = NUL \<or> d = xFF"
    using Cons c by (cases "recovery_size L - 1") auto
  show ?thesis
  proof (cases "d = NUL")
    case True
    then show ?thesis
      using u by (simp add: args_from_bcb_def strtok_NUL_head present_def)
  next
    case False
    with u have d: "d = xFF" by simp
    obtain tok sc rest where "strtok (xFF # ds) [nl] = Some (xFF # tok, xFF # sc, rest)"
      using strtok_xFF_head by blast
    then show ?thesis
      using u d by (simp add: args_from_bcb_def present_def)
  qed
qed

lemma log_boot_fields_bcb:
  "log_boot_fields L b (w\<lparr>bcb := x\<rparr>) = (log_boot_fields L b w)\<lparr>bcb := x\<rparr>"
  by (simp add: log_boot_fields_def Let_def LOGI_def)

lemma log_boot_fields_blank: "log_boot_fields L (blank_absent b) w = log_boot_fields L b w"
  by (simp add: log_boot_fields_def blank_absent_def Let_def)

lemma args_from_bcb_bcb:
  "args_from_bcb L rec argv (w\<lparr>bcb := x\<rparr>) =
     (case args_from_bcb L rec argv w of (a, r, w') \<Rightarrow> (a, r, w'\<lparr>bcb := x\<rparr>))"
  by (simp add: args_from_bcb_def Let_def LOGI_def LOGE_def split: option.splits prod.splits)

lemma args_from_file_bcb:
  "args_from_file argv (w\<lparr>bcb := x\<rparr>) =
     map_sum id (\<lambda>(a, w'). (a, w'\<lparr>bcb := x\<rparr>)) (args_from_file argv w)"
  by (simp add: args_from_file_def fopen_root_path_r_def LOGI_def LOGE_def
           split: option.splits list.splits sum.splits)

text \<open>
  The Command and the log of a call of \<open>get_args\<close>, from the outcome of its first
  branch.
\<close>

lemma get_args_observed:
  assumes "(if length argv \<le> 1
            then args_from_bcb L (recovery (if bcb_readable w then bcb w else zeroed L)) argv
                   (log_boot_fields L (if bcb_readable w then bcb w else zeroed L) w)
            else (argv, recovery (if bcb_readable w then bcb w else zeroed L),
                  log_boot_fields L (if bcb_readable w then bcb w else zeroed L) w))
           = (argv1, rec1, w2)"
  shows "map_sum id (\<lambda>(a, w'). (a, tmplog w')) (get_args L w argv) =
           map_sum id (\<lambda>(a, w'). (a, tmplog w'))
             (if length argv1 \<le> 1 then args_from_file argv1 w2 else Inr (argv1, w2))"
proof -
  have "get_args L w argv =
      (case (if length argv1 \<le> 1 then args_from_file argv1 w2 else Inr (argv1, w2)) of
         Inl e \<Rightarrow> Inl e
       | Inr (argv2, w3) \<Rightarrow>
           Inr (argv2,
                w3\<lparr>bcb := (if bcb_readable w then bcb w else zeroed L)
                     \<lparr>command := strlcpy (command (if bcb_readable w then bcb w else zeroed L))
                                   ''boot-recovery'' (command_size L),
                      recovery := write_args L rec1 argv2\<rparr>\<rparr>))"
    using assms unfolding get_args_def Let_def by (simp del: split_paired_All)
  then show ?thesis
    by (auto split: sum.splits)
qed

lemma tmplog_bcb_update:
  "map_sum id (\<lambda>(a, w'). (a, tmplog w')) (map_sum id (\<lambda>(a, w'). (a, w'\<lparr>bcb := x\<rparr>)) r)
     = map_sum id (\<lambda>(a, w'). (a, tmplog w')) r"
  by (cases r) auto

text \<open>
  Claim C8. A field of the control block that starts with a 0x00 or a 0xFF byte is
  treated as empty: the Command that \<open>get_args\<close> returns and everything it logs are
  the same as for the record in which every such field is all zero. In particular a
  \<open>recovery\<close> field that starts with such a byte gives no argument from the control
  block branch and no log line, and such \<open>command\<close> and \<open>status\<close> fields are not
  logged.
\<close>

theorem absent_fields_count_as_empty:
  "map_sum id (\<lambda>(a, w'). (a, tmplog w')) (get_args L (w\<lparr>bcb := blank_absent (bcb w)\<rparr>) argv)
     = map_sum id (\<lambda>(a, w'). (a, tmplog w')) (get_args L w argv)
   \<and> (\<not> present (recovery (bcb w)) \<longrightarrow>
        (\<exists>rec'. args_from_bcb L (recovery (bcb w)) argv w = (argv, rec', w)))
   \<and> (\<not> present (command (bcb w)) \<and> \<not> present (status (bcb w)) \<longrightarrow>
        log_boot_fields L (bcb w) w = w)"
proof -
  let ?b = "bcb w"
  let ?b' = "blank_absent ?b"
  let ?w' = "w\<lparr>bcb := ?b'\<rparr>"
  let ?boot = "if bcb_readable w then ?b else zeroed L"
  let ?boot' = "if bcb_readable ?w' then bcb ?w' else zeroed L"
  let ?v = "log_boot_fields L ?boot w"
  have lg: "log_boot_fields L ?boot' ?w' = ?v\<lparr>bcb := ?b'\<rparr>"
    by (simp add: log_boot_fields_bcb log_boot_fields_blank)
  obtain argv1 rec1 w2 where s: "(if length argv \<le> 1
            then args_from_bcb L (recovery ?boot) argv ?v
            else (argv, recovery ?boot, ?v)) = (argv1, rec1, w2)"
    by (metis prod_cases3)
  have "\<exists>rec2. (if length argv \<le> 1
            then args_from_bcb L (recovery ?boot') argv (?v\<lparr>bcb := ?b'\<rparr>)
            else (argv, recovery ?boot', ?v\<lparr>bcb := ?b'\<rparr>)) = (argv1, rec2, w2\<lparr>bcb := ?b'\<rparr>)"
  proof (cases "length argv \<le> 1")
    case False
    then show ?thesis using s by auto
  next
    case small: True
    show ?thesis
    proof (cases "bcb_readable w \<and> \<not> present (recovery ?b)")
      case False
      then have "recovery ?boot' = recovery ?boot"
        by (auto simp: blank_absent_def)
      then show ?thesis
        using s small by (simp add: args_from_bcb_bcb)
    next
      case True
      then have r': "recovery ?boot' = replicate (length (recovery ?b)) NUL"
        and r: "recovery ?boot = recovery ?b"
        by (simp_all add: blank_absent_def)
      obtain ra where a: "args_from_bcb L (recovery ?b) argv ?v = (argv, ra, ?v)"
        using args_from_bcb_absent[of "recovery ?b" L argv ?v] True by blast
      obtain rb where b: "args_from_bcb L (replicate (length (recovery ?b)) NUL) argv (?v\<lparr>bcb := ?b'\<rparr>)
            = (argv, rb, ?v\<lparr>bcb := ?b'\<rparr>)"
        using args_from_bcb_absent[of "replicate (length (recovery ?b)) NUL" L argv "?v\<lparr>bcb := ?b'\<rparr>"]
        by auto
      from s small a r have "argv1 = argv" "w2 = ?v" by simp_all
      then show ?thesis using small b r' by simp
    qed
  qed
  then obtain rec2 where s': "(if length argv \<le> 1
            then args_from_bcb L (recovery ?boot') argv (log_boot_fields L ?boot' ?w')
            else (argv, recovery ?boot', log_boot_fields L ?boot' ?w')) = (argv1, rec2, w2\<lparr>bcb := ?b'\<rparr>)"
    unfolding lg by blast
  have one: "map_sum id (\<lambda>(a, w'). (a, tmplog w')) (get_args L ?w' argv)
     = map_sum id (\<lambda>(a, w'). (a, tmplog w')) (get_args L w argv)"
    unfolding get_args_observed[OF s] get_args_observed[OF s']
    by (simp add: args_from_file_bcb tmplog_bcb_update)
  have two: "\<not> present (recovery (bcb w)) \<longrightarrow>
        (\<exists>rec'. args_from_bcb L (recovery (bcb w)) argv w = (argv, rec', w))"
    using args_from_bcb_absent by blast
  have three: "\<not> present (command (bcb w)) \<and> \<not> present (status (bcb w)) \<longrightarrow>
        log_boot_fields L (bcb w) w = w"
    by (simp add: log_boot_fields_def)
  from one two three show ?thesis by blast
qed

lemma present_replicate_xFF [simp]: "\<not> present (replicate n xFF)"
  by (cases n) (simp_all add: present_def)

theorem absent_fields_count_as_empty_witness:
  "\<not> present (recovery (bcb (cold_boot\<lparr>bcb := \<lparr>command = replicate 32 xFF, status = replicate 32 xFF,
                                                recovery = replicate 1024 xFF\<rparr>\<rparr>)))
   \<and> fst (args_from_bcb example_layout (replicate 1024 xFF) [''/sbin/recovery'']
        (cold_boot\<lparr>bcb := \<lparr>command = replicate 32 xFF, status = replicate 32 xFF,
                              recovery = replicate 1024 xFF\<rparr>\<rparr>)) = [''/sbin/recovery'']
   \<and> log_boot_fields example_layout
        \<lparr>command = replicate 32 xFF, status = replicate 32 xFF, recovery = replicate 1024 xFF\<rparr>
        (cold_boot\<lparr>bcb := \<lparr>command = replicate 32 xFF, status = replicate 32 xFF,
                              recovery = replicate 1024 xFF\<rparr>\<rparr>)
      = cold_boot\<lparr>bcb := \<lparr>command = replicate 32 xFF, status = replicate 32 xFF,
                              recovery = replicate 1024 xFF\<rparr>\<rparr>"
  using absent_fields_count_as_empty
          [of example_layout
              "cold_boot\<lparr>bcb := \<lparr>command = replicate 32 xFF, status = replicate 32 xFF,
                                    recovery = replicate 1024 xFF\<rparr>\<rparr>"
              "[''/sbin/recovery'']"]
  by auto

section \<open>Precedence of the sources\<close>

lemma cstr_text_zeros: "NUL \<notin> set s \<Longrightarrow> cstr (s @ replicate n NUL) = s"
  by (cases n) (simp_all add: cstr_id cstr_append_NUL)

text \<open>
  Claim C3. Invocation arguments behind the placeholder are returned as they are,
  whatever the control block and the command file hold. Without them, a readable control
  block whose \<open>recovery\<close> field holds at least one argument line decides, whatever the
  command file holds.
\<close>

theorem sources_by_precedence:
  "(1 < length argv \<longrightarrow> (\<exists>w'. get_args L w argv = Inr (argv, w')))
   \<and> (length argv \<le> 1 \<and> bcb_readable w \<and> 0 < recovery_size L
        \<and> cstr (recovery (bcb w)) = ''recovery'' @ nl # concat (map (\<lambda>a. a @ [nl]) as)
        \<and> length (''recovery'' @ nl # concat (map (\<lambda>a. a @ [nl]) as)) < recovery_size L
        \<and> (\<forall>a\<in>set as. plain a) \<and> length as \<le> MAX_ARGS - 1 \<and> as \<noteq> []
      \<longrightarrow> (\<exists>w'. get_args L w argv = Inr (''recovery'' # as, w')))"
proof (intro conjI impI)
  assume "1 < length argv"
  from get_args_many[OF this] show "\<exists>w'. get_args L w argv = Inr (argv, w')" by blast
next
  assume h: "length argv \<le> 1 \<and> bcb_readable w \<and> 0 < recovery_size L
        \<and> cstr (recovery (bcb w)) = ''recovery'' @ nl # concat (map (\<lambda>a. a @ [nl]) as)
        \<and> length (''recovery'' @ nl # concat (map (\<lambda>a. a @ [nl]) as)) < recovery_size L
        \<and> (\<forall>a\<in>set as. plain a) \<and> length as \<le> MAX_ARGS - 1 \<and> as \<noteq> []"
  have "take (recovery_size L - 1) (''recovery'' @ nl # concat (map (\<lambda>a. a @ [nl]) as))
          = ''recovery'' @ nl # concat (map (\<lambda>a. a @ [nl]) as)"
  proof (rule take_all)
    from h have "length (''recovery'' @ nl # concat (map (\<lambda>a. a @ [nl]) as)) < recovery_size L"
      by blast
    then show "length (''recovery'' @ nl # concat (map (\<lambda>a. a @ [nl]) as)) \<le> recovery_size L - 1"
      by linarith
  qed
  with h have tx: "cstr (recovery (bcb w)) =
      take (recovery_size L - 1) (''recovery'' @ nl # concat (map (\<lambda>a. a @ [nl]) as))"
    by metis
  have fits: "length (''recovery'' @ nl # concat (map (\<lambda>a. a @ [nl]) as)) \<le> recovery_size L"
    using h by simp
  from h get_args_reads_text[OF _ _ tx fits, where argv = argv]
  show "\<exists>w'. get_args L w argv = Inr (''recovery'' # as, w')" by blast
qed

theorem sources_by_precedence_witness:
  "map_sum id fst (get_args example_layout
      (cold_boot\<lparr>bcb := (zeroed example_layout)
                    \<lparr>recovery := ''recovery'' @ nl # ''--wipe_cache'' @ nl # replicate 1002 NUL\<rparr>,
                 command_file := Some (''--wipe_data'' @ [nl])\<rparr>)
      [''/sbin/recovery'', ''--update_package=CACHE:update.zip''])
     = Inr [''/sbin/recovery'', ''--update_package=CACHE:update.zip'']
   \<and> map_sum id fst (get_args example_layout
      (cold_boot\<lparr>bcb := (zeroed example_layout)
                    \<lparr>recovery := ''recovery'' @ nl # ''--wipe_cache'' @ nl # replicate 1002 NUL\<rparr>,
                 command_file := Some (''--wipe_data'' @ [nl])\<rparr>)
      [''/sbin/recovery''])
     = Inr [''recovery'', ''--wipe_cache'']"
proof -
  let ?w = "cold_boot\<lparr>bcb := (zeroed example_layout)
                    \<lparr>recovery := ''recovery'' @ nl # ''--wipe_cache'' @ nl # replicate 1002 NUL\<rparr>,
                 command_file := Some (''--wipe_data'' @ [nl])\<rparr>"
  have c: "cstr (recovery (bcb ?w)) = ''recovery'' @ nl # concat (map (\<lambda>a. a @ [nl]) [''--wipe_cache''])"
    using cstr_text_zeros[of "''recovery'' @ nl # ''--wipe_cache'' @ [nl]" 1002]
    by (simp add: NUL_def nl_def)
  have h2: "length [''/sbin/recovery''] \<le> 1 \<and> bcb_readable ?w \<and> 0 < recovery_size example_layout
        \<and> cstr (recovery (bcb ?w)) = ''recovery'' @ nl # concat (map (\<lambda>a. a @ [nl]) [''--wipe_cache''])
        \<and> length (''recovery'' @ nl # concat (map (\<lambda>a. a @ [nl]) [''--wipe_cache''])) < recovery_size example_layout
        \<and> (\<forall>a\<in>set [''--wipe_cache'']. plain a) \<and> length [''--wipe_cache''] \<le> MAX_ARGS - 1
        \<and> [''--wipe_cache''] \<noteq> []"
    using c by (simp add: cold_boot_def example_layout_def plain_def MAX_ARGS_def NUL_def nl_def)
  have h1: "1 < length [''/sbin/recovery'', ''--update_package=CACHE:update.zip'']" by simp
  obtain w1 where a: "get_args example_layout ?w [''/sbin/recovery'', ''--update_package=CACHE:update.zip'']
      = Inr ([''/sbin/recovery'', ''--update_package=CACHE:update.zip''], w1)"
    using sources_by_precedence
            [of "[''/sbin/recovery'', ''--update_package=CACHE:update.zip'']" example_layout ?w "[]"] h1
    by blast
  obtain w2 where b: "get_args example_layout ?w [''/sbin/recovery'']
      = Inr ([''recovery'', ''--wipe_cache''], w2)"
    using sources_by_precedence[of "[''/sbin/recovery'']" example_layout ?w "[''--wipe_cache'']"] h2
    by blast
  from a b show ?thesis by simp
qed

section \<open>Reading the command file\<close>

lemma cr_neq [simp]: "cr \<noteq> NUL" "NUL \<noteq> cr" "cr \<noteq> nl" "nl \<noteq> cr"
  by (simp_all add: cr_def nl_def NUL_def)

lemma fgets_chunk_line:
  "nl \<notin> set a \<Longrightarrow> length a < k \<Longrightarrow> fgets_chunk k (a @ nl # r) = a @ [nl]"
proof (induction a arbitrary: k)
  case Nil
  then show ?case by (cases k) simp_all
next
  case (Cons c a)
  then show ?case by (cases k) auto
qed


lemma fgets_line:
  assumes "nl \<notin> set a" and "length a < MAX_ARG_LENGTH - 1"
  shows "fgets MAX_ARG_LENGTH (a @ nl # r) = Some (a @ [nl], r)"
  using assms fgets_chunk_line[of a "MAX_ARG_LENGTH - 1" r]
  by (simp add: fgets_def Let_def MAX_ARG_LENGTH_def)



text \<open>A buffer that holds a plain piece without carriage return gives it as the token.\<close>

lemma strtok_crlf:
  assumes "plain a" and "cr \<notin> set a" and "t = [] \<or> hd t = NUL \<or> hd t = cr \<or> hd t = nl"
  shows "\<exists>sc rest. strtok (a @ t) [cr, nl] = Some (a, sc, rest)"
proof -
  obtain c cs where a: "a = c # cs" using assms(1) by (cases a) (auto simp: plain_def)
  have c: "c \<noteq> cr" "c \<noteq> nl" "c \<noteq> NUL" using assms a by (auto simp: plain_def)
  have tw: "takeWhile (\<lambda>c. c \<noteq> NUL \<and> c \<noteq> cr \<and> c \<noteq> nl) (a @ t) = a"
  proof -
    have "takeWhile (\<lambda>c. c \<noteq> NUL \<and> c \<noteq> cr \<and> c \<noteq> nl) (a @ t)
            = a @ takeWhile (\<lambda>c. c \<noteq> NUL \<and> c \<noteq> cr \<and> c \<noteq> nl) t"
      using assms(1,2) by (intro takeWhile_append2) (auto simp: plain_def)
    moreover have "takeWhile (\<lambda>c. c \<noteq> NUL \<and> c \<noteq> cr \<and> c \<noteq> nl) t = []"
      using assms(3) by (cases t) auto
    ultimately show ?thesis by simp
  qed
  have sk: "takeWhile (\<lambda>c. c = cr \<or> c = nl) (a @ t) = []"
           "dropWhile (\<lambda>c. c = cr \<or> c = nl) (a @ t) = a @ t"
    using a c by simp_all
  have ne: "a \<noteq> []" using a by simp
  show ?thesis
    by (simp add: strtok_def Let_def sk tw ne split: list.splits)
qed

lemma strtok_empty_line: "strtok ([nl] @ [NUL]) [cr, nl] = None"
  by (simp add: strtok_def)

text \<open>One round of the loop over \<open>fgets\<close>.\<close>

lemma read_args_line:
  assumes "plain a" and "cr \<notin> set a" and "length a < MAX_ARG_LENGTH - 1"
  shows "read_args (Suc n) (a @ nl # r) =
           (case read_args n r of Inl e \<Rightarrow> Inl e | Inr toks \<Rightarrow> Inr (a # toks))"
proof -
  have f: "fgets MAX_ARG_LENGTH (a @ nl # r) = Some (a @ [nl], r)"
    using assms by (intro fgets_line) (auto simp: plain_def)
  obtain sc rest where "strtok (a @ [nl, NUL]) [cr, nl] = Some (a, sc, rest)"
    using strtok_crlf[OF assms(1,2), of "[nl, NUL]"] by auto
  then show ?thesis using f by simp
qed



lemma read_args_empty_line: "read_args (Suc n) (nl # r) = Inl Null_strdup"
proof -
  have "fgets MAX_ARG_LENGTH ([] @ nl # r) = Some ([] @ [nl], r)"
    by (rule fgets_line) (simp_all add: MAX_ARG_LENGTH_def)
  then show ?thesis using strtok_empty_line by simp
qed

lemma args_from_file_open:
  assumes "cache_mounts w" and "command_file w = Some contents"
  shows "args_from_file (p # old) w =
           (case read_args (MAX_ARGS - 1) contents of
              Inl e \<Rightarrow> Inl e
            | Inr toks \<Rightarrow> Inr (p # toks, LOGI (''Got arguments from '' @ COMMAND_FILE @ [nl]) w))"
  using assms by (simp add: args_from_file_def fopen_root_path_r_def)

text \<open>
  Without invocation arguments and with nothing in the control block, the command file
  decides the Command and the log.
\<close>

lemma get_args_from_file:
  assumes "length argv \<le> 1" and "\<not> bcb_readable w \<or> \<not> present (recovery (bcb w))"
  shows "map_sum id (\<lambda>(a, w'). (a, tmplog w')) (get_args L w argv) =
           map_sum id (\<lambda>(a, w'). (a, tmplog w'))
             (args_from_file argv (log_boot_fields L (if bcb_readable w then bcb w else zeroed L) w))"
proof -
  let ?boot = "if bcb_readable w then bcb w else zeroed L"
  let ?v = "log_boot_fields L ?boot w"
  have "\<not> present (recovery ?boot)"
    using assms(2) by (auto simp: zeroed_def)
  then obtain rec' where "args_from_bcb L (recovery ?boot) argv ?v = (argv, rec', ?v)"
    using args_from_bcb_absent by blast
  then have "(if length argv \<le> 1 then args_from_bcb L (recovery ?boot) argv ?v
              else (argv, recovery ?boot, ?v)) = (argv, rec', ?v)"
    using assms(1) by simp
  from get_args_observed[OF this] assms(1) show ?thesis by simp
qed






section \<open>Claims about the command file\<close>

text \<open>
  Claim C9 fails on the code: a command file with an empty line makes
  \<open>strtok(buf, "\r\n")\<close> return NULL, and \<open>strdup\<close> of NULL is no Command.
\<close>

theorem get_args_empty_line_fault:
  "get_args example_layout (cold_boot\<lparr>command_file := Some (''--wipe_data'' @ [nl, nl])\<rparr>)
     [''/sbin/recovery''] = Inl Null_strdup"
proof -
  let ?w = "cold_boot\<lparr>command_file := Some (''--wipe_data'' @ [nl, nl])\<rparr>"
  let ?v = "log_boot_fields example_layout (if bcb_readable ?w then bcb ?w else zeroed example_layout) ?w"
  have p: "plain ''--wipe_data''" "cr \<notin> set ''--wipe_data''"
    "length ''--wipe_data'' < MAX_ARG_LENGTH - 1"
    by (simp_all add: plain_def NUL_def nl_def cr_def MAX_ARG_LENGTH_def)
  have "read_args (MAX_ARGS - 1) (''--wipe_data'' @ nl # [nl]) = Inl Null_strdup"
    using read_args_line[OF p, of 98 "[nl]"] read_args_empty_line[of 97 "[]"]
    by (simp add: MAX_ARGS_def numeral_eq_Suc)
  moreover have "cache_mounts ?v" "command_file ?v = Some (''--wipe_data'' @ nl # [nl])"
    by (simp_all add: cold_boot_def)
  ultimately have "args_from_file [''/sbin/recovery''] ?v = Inl Null_strdup"
    using args_from_file_open[of ?v "''--wipe_data'' @ nl # [nl]" "''/sbin/recovery''" "[]"]
    by simp
  moreover have "\<not> bcb_readable ?w \<or> \<not> present (recovery (bcb ?w))"
    by (simp add: cold_boot_def zeroed_def)
  ultimately have "map_sum id (\<lambda>(a, w'). (a, tmplog w')) (get_args example_layout ?w [''/sbin/recovery''])
      = Inl Null_strdup"
    using get_args_from_file[of "[''/sbin/recovery'']" ?w example_layout] by simp
  then show ?thesis
    by (cases "get_args example_layout ?w [''/sbin/recovery'']") auto
qed


section \<open>Lines of the command file, piece by piece\<close>













section \<open>Claims about the command of a session\<close>

text \<open>
  Claim C6. With no package to install and a wipe requested, \<open>main\<close> formats the data
  volume before the cache volume, formats the cache volume whatever the data format
  returned, and the status is success exactly when every requested format returned 0.
\<close>

theorem erase_order_and_outcome:
  assumes "update_package opts = None" and "wipe_data opts \<or> wipe_cache opts"
  shows "fst (run_command install_package format_root_device opts) =
           (if (wipe_data opts \<longrightarrow> format_root_device ''DATA:'' = 0)
               \<and> (wipe_cache opts \<longrightarrow> format_root_device ''CACHE:'' = 0)
            then INSTALL_SUCCESS else INSTALL_ERROR)
       \<and> [root. Format_root_device root \<leftarrow> snd (run_command install_package format_root_device opts)] =
           (if wipe_data opts then [''DATA:''] else []) @ (if wipe_cache opts then [''CACHE:''] else [])"
proof (cases "wipe_data opts")
  case True
  then show ?thesis
    using assms by (cases "wipe_cache opts") (simp_all add: run_command_def erase_root_def)
next
  case False
  then show ?thesis
    using assms by (simp add: run_command_def erase_root_def)
qed

theorem erase_order_and_outcome_witness:
  "fst (run_command (\<lambda>p. INSTALL_SUCCESS) (\<lambda>r. if r = ''DATA:'' then 1 else 0)
          (no_options\<lparr>wipe_data := True, wipe_cache := True\<rparr>)) = INSTALL_ERROR
   \<and> [root. Format_root_device root \<leftarrow>
         snd (run_command (\<lambda>p. INSTALL_SUCCESS) (\<lambda>r. if r = ''DATA:'' then 1 else 0)
          (no_options\<lparr>wipe_data := True, wipe_cache := True\<rparr>))] = [''DATA:'', ''CACHE:'']"
  using erase_order_and_outcome
          [where opts = "no_options\<lparr>wipe_data := True, wipe_cache := True\<rparr>"
             and format_root_device = "\<lambda>r. if r = ''DATA:'' then 1 else 0"
             and install_package = "\<lambda>p. INSTALL_SUCCESS"]
  by (simp add: no_options_def)

text \<open>
  Claim C7. When the parsed options hold no package and no wipe flag, the status is
  \<open>INSTALL_ERROR\<close>, and \<open>main\<close> sets the error icon and calls \<open>prompt_and_wait\<close>
  before it finishes and reboots. A cold boot is such a session: without invocation
  arguments, with an all-zero control block and no command file, \<open>get_args\<close>
  returns the placeholder alone, for which \<open>getopt_long\<close> returns nothing.
\<close>

theorem no_command_goes_to_prompt:
  assumes "parse_options returned = (opts, evs)"
    and "update_package opts = None" and "\<not> wipe_data opts" and "\<not> wipe_cache opts"
  shows "run_command install_package format_root_device opts = (INSTALL_ERROR, [])
       \<and> main_session install_package format_root_device returned =
           (INSTALL_ERROR,
            evs @ [Ui_set_background BACKGROUND_ICON_ERROR, Prompt_and_wait,
                   Finish_recovery (send_intent opts), Sync,
                   Ui_print (''Rebooting...'' @ [nl]), Sync, Reboot])"
  using assms
  by (simp add: main_session_def run_command_def after_command_def do_reboot_def)

theorem no_command_goes_to_prompt_witness:
  "map_sum id (\<lambda>(C, w'). (C, tmplog w')) (get_args example_layout cold_boot [''/sbin/recovery''])
     = Inr ([''/sbin/recovery''], [])
   \<and> parse_options [] = (no_options, [])
   \<and> main_session (\<lambda>p. INSTALL_SUCCESS) (\<lambda>r. 0) [] =
       (INSTALL_ERROR,
        [Ui_set_background BACKGROUND_ICON_ERROR, Prompt_and_wait, Finish_recovery None, Sync,
         Ui_print (''Rebooting...'' @ [nl]), Sync, Reboot])"
proof -
  have "args_from_file [''/sbin/recovery''] cold_boot = Inr ([''/sbin/recovery''], cold_boot)"
    by (simp add: args_from_file_def fopen_root_path_r_def cold_boot_def)
  moreover have "log_boot_fields example_layout
        (if bcb_readable cold_boot then bcb cold_boot else zeroed example_layout) cold_boot = cold_boot"
    by (simp add: log_boot_fields_def cold_boot_def zeroed_def)
  moreover have "\<not> bcb_readable cold_boot \<or> \<not> present (recovery (bcb cold_boot))"
    by (simp add: cold_boot_def zeroed_def)
  ultimately have g: "map_sum id (\<lambda>(C, w'). (C, tmplog w'))
        (get_args example_layout cold_boot [''/sbin/recovery'']) = Inr ([''/sbin/recovery''], [])"
    using get_args_from_file[of "[''/sbin/recovery'']" cold_boot example_layout]
    by (simp add: cold_boot_def)
  have h: "parse_options [] = (no_options, [])"
    by (simp add: parse_options_def)
  show ?thesis
    using g h no_command_goes_to_prompt[OF h, where install_package = "\<lambda>p. INSTALL_SUCCESS"
            and format_root_device = "\<lambda>r. 0"]
    by (simp add: no_options_def)
qed

end
